theory Spec2Isabelle
  imports Main "HOL-Library.Word" "HOL-Library.AList"
begin

section \<open>The RNTuple schema model, its projected fields and its identifiers\<close>

text \<open>
  This theory embeds \<^verbatim>\<open>tree/ntuple/v7/src/RNTupleModel.cxx\<close> into HOL. Member
  functions become functions on records; a member function that mutates its object takes
  the object and returns it; a \<^verbatim>\<open>throw\<close>, an \<^verbatim>\<open>R__FAIL\<close> and a dereferenced
  null pointer become values of the type \<open>error\<close>.
\<close>

subsection \<open>Identifiers\<close>

type_synonym u64 = "64 word"

text \<open>
  \<^verbatim>\<open>GetNewModelId\<close>: \<^verbatim>\<open>static std::atomic<std::uint64_t> gLastModelId = 0;
  return ++gLastModelId;\<close>. The static counter is passed in and out; the first component
  of the result is the value returned, the second the counter afterwards.
\<close>

definition gLastModelId_init :: u64 where
  "gLastModelId_init = 0"

definition GetNewModelId :: "u64 \<Rightarrow> u64 \<times> u64" where
  "GetNewModelId gLastModelId = (gLastModelId + 1, gLastModelId + 1)"

text \<open>The ids returned by \<open>n\<close> successive calls, the first call first.\<close>

fun issued_ids :: "u64 \<Rightarrow> nat \<Rightarrow> u64 list" where
  "issued_ids g 0 = []"
| "issued_ids g (Suc n) = (case GetNewModelId g of (i, g') \<Rightarrow> i # issued_ids g' n)"

subsection \<open>Errors\<close>

text \<open>
  \<open>RFail\<close> is an \<^verbatim>\<open>RResult\<close> holding an error (\<^verbatim>\<open>R__FAIL\<close>), \<open>RException\<close> a thrown
  \<^verbatim>\<open>RException\<close>, \<open>OutOfRange\<close> the \<^verbatim>\<open>std::out_of_range\<close> of
  \<^verbatim>\<open>unordered_map::at\<close>, \<open>NullDeref\<close> a member access through a null pointer and
  \<open>InvalidPointer\<close> one through a pointer to no field.
\<close>

datatype error =
    RFail string
  | RException string
  | OutOfRange
  | NullDeref
  | InvalidPointer

text \<open>
  What a call that changes an object leaves behind. A call that returns or throws
  completes: it has a result, and the object is in a state afterwards. A member access
  through a null pointer or through a pointer to no field is undefined behaviour: the call
  does not complete, and nothing is said about the object afterwards.
\<close>

datatype 's outcome = Completes "error + unit" 's | Crashes error

definition undefined_behaviour :: "error \<Rightarrow> bool" where
  "undefined_behaviour e = (e = NullDeref \<or> e = InvalidPointer)"

text \<open>
  A step that did not succeed ends the call: with the error as the result and the object
  as it is, or with a crash where the error is undefined behaviour.
\<close>

definition ends_with :: "error \<Rightarrow> 's \<Rightarrow> 's outcome" where
  "ends_with e s = (if undefined_behaviour e then Crashes e else Completes (Inl e) s)"

subsection \<open>Fields\<close>

text \<open>
  Modelled from the spec: the enumeration \<^verbatim>\<open>ENTupleStructure\<close> is declared in a header
  that is not part of the sources at hand; the spec lists the structural kinds Leaf, Record,
  Collection, Unsplit and Variant/Reference-like, and the code names
  \<^verbatim>\<open>kLeaf\<close>, \<^verbatim>\<open>kCollection\<close>, \<^verbatim>\<open>kRecord\<close> and \<^verbatim>\<open>kUnsplit\<close>.
\<close>

datatype ENTupleStructure = kLeaf | kCollection | kRecord | kVariant | kReference | kUnsplit

text \<open>
  A field owns its subfields. \<open>isCardinality\<close> is the outcome of
  \<^verbatim>\<open>dynamic_cast<const RCardinalityField *>\<close> on the field.
\<close>

datatype RFieldBase =
  RFieldBase (fName: string) (fType: string) (fStructure: ENTupleStructure)
             (fNRepetitions: nat) (isCardinality: bool) (fSubFields: "RFieldBase list")

text \<open>\<^verbatim>\<open>RFieldZero\<close>: the root of a field tree, an unnamed record without subfields.\<close>

definition RFieldZero :: RFieldBase where
  "RFieldZero = RFieldBase [] [] kRecord 0 False []"

text \<open>
  Modelled from the spec: \<^verbatim>\<open>RFieldBase::Attach\<close> is defined in a file that is not part
  of the sources at hand; it appends the child to the owned subfields and sets the child's
  parent pointer, which the path of the child expresses here.
\<close>

definition Attach :: "RFieldBase \<Rightarrow> RFieldBase \<Rightarrow> RFieldBase" where
  "Attach parent child =
     RFieldBase (fName parent) (fType parent) (fStructure parent) (fNRepetitions parent)
                (isCardinality parent) (fSubFields parent @ [child])"

subsection \<open>Pointers to fields\<close>

text \<open>
  A \<^verbatim>\<open>const RFieldBase *\<close> is the owning tree of the field together with the path
  of child indices from the root of that tree to the field. Three trees own fields: the
  model's \<^verbatim>\<open>fFieldZero\<close>, the \<^verbatim>\<open>fFieldZero\<close> of its projected fields, and a
  field that has been created but not attached yet (held by a \<^verbatim>\<open>unique_ptr\<close>). The
  parent of a field is the path without its last index; the root of a tree has no parent
  (\<^verbatim>\<open>GetParent()\<close> returns null).
\<close>

datatype root = ModelTree | ProjectedTree | Detached

type_synonym field_ptr = "root \<times> nat list"

record heap =
  hModelTree :: RFieldBase
  hProjectedTree :: RFieldBase
  hDetached :: "RFieldBase option"

definition root_of :: "heap \<Rightarrow> root \<Rightarrow> RFieldBase option" where
  "root_of h r =
     (case r of ModelTree \<Rightarrow> Some (hModelTree h)
      | ProjectedTree \<Rightarrow> Some (hProjectedTree h)
      | Detached \<Rightarrow> hDetached h)"

text \<open>
  The fields met on the way from the root \<open>f\<close> along a path, the root first and the
  field the path leads to last; \<open>None\<close> when the path leaves the tree.
\<close>

fun nodes_on_path :: "RFieldBase \<Rightarrow> nat list \<Rightarrow> RFieldBase list option" where
  "nodes_on_path f [] = Some [f]"
| "nodes_on_path f (i # p) =
     (if i < length (fSubFields f)
      then map_option (Cons f) (nodes_on_path (fSubFields f ! i) p)
      else None)"

definition deref :: "heap \<Rightarrow> field_ptr \<Rightarrow> RFieldBase option" where
  "deref h ptr =
     (case root_of h (fst ptr) of None \<Rightarrow> None
      | Some f \<Rightarrow> map_option last (nodes_on_path f (snd ptr)))"

definition GetParent :: "field_ptr \<Rightarrow> field_ptr option" where
  "GetParent ptr = (if snd ptr = [] then None else Some (fst ptr, butlast (snd ptr)))"

text \<open>
  The chain of parents of a field, the nearest first: what the iterations
  \<^verbatim>\<open>auto parent = f.GetParent(); while (parent) { ...; parent = parent->GetParent(); }\<close>
  visit, each parent with its pointer.
\<close>

definition parent_chain :: "heap \<Rightarrow> field_ptr \<Rightarrow> (field_ptr \<times> RFieldBase) list option" where
  "parent_chain h ptr =
     (case root_of h (fst ptr) of None \<Rightarrow> None
      | Some f \<Rightarrow>
          (case nodes_on_path f (snd ptr) of None \<Rightarrow> None
           | Some ns \<Rightarrow>
               Some (rev (zip (map (\<lambda>k. (fst ptr, take k (snd ptr))) [0..<length (snd ptr)])
                              (butlast ns)))))"

text \<open>
  Modelled from the spec: \<^verbatim>\<open>RFieldBase::GetQualifiedFieldName\<close> is defined in a file
  that is not part of the sources at hand; the qualified path is the join of the ancestor
  names with dots, from the field upwards as long as the parent has a name (the zero
  field has none). The argument of \<open>qualified_name\<close> lists the names from the field
  to the root.
\<close>

fun qualified_name :: "string list \<Rightarrow> string" where
  "qualified_name [] = []"
| "qualified_name [n] = n"
| "qualified_name (n # p # ps) =
     (if p \<noteq> [] then qualified_name (p # ps) @ ''.'' @ n else n)"

definition GetQualifiedFieldName :: "heap \<Rightarrow> field_ptr \<Rightarrow> string option" where
  "GetQualifiedFieldName h ptr =
     (case root_of h (fst ptr) of None \<Rightarrow> None
      | Some f \<Rightarrow> map_option (\<lambda>ns. qualified_name (rev (map fName ns)))
                              (nodes_on_path f (snd ptr)))"

text \<open>
  The paths of the descendants of a field, in the order of the iteration
  \<^verbatim>\<open>for (const auto &f : *field)\<close>: depth first, a field before its subfields, the
  field itself left out.
\<close>

fun descendants :: "RFieldBase \<Rightarrow> nat list list"
  and descendants_from :: "nat \<Rightarrow> RFieldBase list \<Rightarrow> nat list list" where
  "descendants (RFieldBase n t s r c subs) = descendants_from 0 subs"
| "descendants_from i [] = []"
| "descendants_from i (sub # subs) =
     ([i] # map (Cons i) (descendants sub)) @ descendants_from (Suc i) subs"

subsection \<open>Projected fields\<close>

text \<open>
  \<^verbatim>\<open>FieldMap_t\<close> maps the pointer of a projected field to the pointer of its source
  field. The map is kept as a list of pairs with distinct keys; \<open>map_of\<close> looks a key up.
\<close>

type_synonym FieldMap_t = "(field_ptr \<times> field_ptr) list"

record RProjectedFields =
  pf_fFieldZero :: RFieldBase
  pf_fFieldMap :: FieldMap_t

text \<open>A pointer resolved: the field it points to and the chain of its parents.\<close>

definition resolve :: "heap \<Rightarrow> field_ptr \<Rightarrow> (RFieldBase \<times> (field_ptr \<times> RFieldBase) list) option" where
  "resolve h ptr =
     (case deref h ptr of None \<Rightarrow> None
      | Some f \<Rightarrow> (case parent_chain h ptr of None \<Rightarrow> None | Some ps \<Rightarrow> Some (f, ps)))"

text \<open>
  The lambda \<^verbatim>\<open>fnHasArrayParent\<close>, run on the chain of parents:
  \<^verbatim>\<open>while (parent) { if (parent->GetNRepetitions() > 0) return true; parent = parent->GetParent(); } return false;\<close>
\<close>

fun fnHasArrayParent :: "(field_ptr \<times> RFieldBase) list \<Rightarrow> bool" where
  "fnHasArrayParent [] = False"
| "fnHasArrayParent ((p, parent) # rest) =
     (if fNRepetitions parent > 0 then True else fnHasArrayParent rest)"

text \<open>
  The lambda \<^verbatim>\<open>fnBreakPoint\<close>: the first parent that is neither a record nor a
  leaf, null when the zero field is reached.
\<close>

fun fnBreakPoint :: "(field_ptr \<times> RFieldBase) list \<Rightarrow> (field_ptr \<times> RFieldBase) option" where
  "fnBreakPoint [] = None"
| "fnBreakPoint ((p, parent) # rest) =
     (if fStructure parent \<noteq> kRecord \<and> fStructure parent \<noteq> kLeaf then Some (p, parent)
      else fnBreakPoint rest)"

text \<open>
  \<^verbatim>\<open>RProjectedFields::EnsureValidMapping\<close>, statement by statement. The second test
  of a break point reads \<^verbatim>\<open>sourceBreakPoint->GetStructure()\<close> under the condition
  \<^verbatim>\<open>targetBreakPoint\<close>, as the source does: with a null \<^verbatim>\<open>sourceBreakPoint\<close> this
  is a member access through a null pointer.
\<close>

definition EnsureValidMapping :: "heap \<Rightarrow> field_ptr \<Rightarrow> FieldMap_t \<Rightarrow> error + unit" where
  "EnsureValidMapping h target fieldMap =
     (case map_of fieldMap target of
        None \<Rightarrow> Inl OutOfRange
      | Some source \<Rightarrow>
     (case resolve h source of
        None \<Rightarrow> Inl InvalidPointer
      | Some (src, sourceParents) \<Rightarrow>
     (case resolve h target of
        None \<Rightarrow> Inl InvalidPointer
      | Some (tgt, targetParents) \<Rightarrow>
       (let hasCompatibleStructure =
              (fStructure src = fStructure tgt) \<or>
              (fStructure src = kCollection \<and> isCardinality tgt)
        in
        if \<not> hasCompatibleStructure then
          Inl (RFail (''field mapping structural mismatch: '' @ fName src @ '' --> '' @ fName tgt))
        else if (fStructure src = kLeaf \<or> fStructure src = kUnsplit) \<and> fType tgt \<noteq> fType src then
          Inl (RFail (''field mapping type mismatch: '' @ fName src @ '' --> '' @ fName tgt))
        else if fnHasArrayParent sourceParents \<or> fnHasArrayParent targetParents then
          Inl (RFail ''unsupported field mapping across fixed-size arrays'')
        else
         (let sourceBreakPoint = fnBreakPoint sourceParents in
          if (case sourceBreakPoint of None \<Rightarrow> False
              | Some (sp, sbp) \<Rightarrow> fStructure sbp \<noteq> kCollection) then
            Inl (RFail ''unsupported field mapping (source structure)'')
          else
           (let targetBreakPoint = fnBreakPoint targetParents in
            case targetBreakPoint of
              None \<Rightarrow>
                (case sourceBreakPoint of
                   None \<Rightarrow> Inr ()
                 | Some (sp, sbp) \<Rightarrow>
                     Inl (RFail (''field mapping structure mismatch: '' @ fName src @ '' --> '' @ fName tgt)))
            | Some (tp, tbp) \<Rightarrow>
                (case sourceBreakPoint of
                   None \<Rightarrow> Inl NullDeref
                 | Some (sp, sbp) \<Rightarrow>
                     if fStructure sbp \<noteq> kCollection then
                       Inl (RFail ''unsupported field mapping (target structure)'')
                     else if sp = tp then Inr ()
                     else if map_of fieldMap tp = Some sp then Inr ()
                     else Inl (RFail (''field mapping structure mismatch: '' @ fName src @ '' --> '' @ fName tgt)))))))))"

text \<open>The loop \<^verbatim>\<open>for (const auto &f : *field)\<close> of \<^verbatim>\<open>RProjectedFields::Add\<close>.\<close>

fun EnsureValidMappings :: "heap \<Rightarrow> field_ptr list \<Rightarrow> FieldMap_t \<Rightarrow> error + unit" where
  "EnsureValidMappings h [] fieldMap = Inr ()"
| "EnsureValidMappings h (f # fs) fieldMap =
     (case EnsureValidMapping h f fieldMap of
        Inl e \<Rightarrow> Inl e
      | Inr u \<Rightarrow> EnsureValidMappings h fs fieldMap)"

text \<open>
  \<^verbatim>\<open>fFieldMap.insert(fieldMap.begin(), fieldMap.end())\<close>: each pair is inserted unless
  its key is present already.
\<close>

fun insert_range :: "FieldMap_t \<Rightarrow> FieldMap_t \<Rightarrow> FieldMap_t" where
  "insert_range [] m = m"
| "insert_range ((k, v) # kvs) m =
     insert_range kvs (if map_of m k = None then m @ [(k, v)] else m)"

text \<open>
  When the detached field becomes subfield number \<open>n\<close> of the projected zero field,
  the pointers into it stay the same objects; their paths now start at that zero field.
\<close>

definition attached_ptr :: "nat \<Rightarrow> field_ptr \<Rightarrow> field_ptr" where
  "attached_ptr n ptr = (case ptr of (Detached, p) \<Rightarrow> (ProjectedTree, n # p) | _ \<Rightarrow> ptr)"

text \<open>
  \<^verbatim>\<open>RProjectedFields::Add\<close>. The first argument is the zero field of the owning model,
  where the source fields live; \<open>field\<close> is the object the \<^verbatim>\<open>unique_ptr\<close> holds.
  A call that completes has the \<^verbatim>\<open>RResult\<close> and the object afterwards; the null
  pointer read in \<^verbatim>\<open>EnsureValidMapping\<close> is a crash.
\<close>

definition Add :: "RFieldBase \<Rightarrow> RFieldBase \<Rightarrow> FieldMap_t \<Rightarrow> RProjectedFields
    \<Rightarrow> RProjectedFields outcome" where
  "Add modelZero field fieldMap pf =
     (let h = \<lparr>hModelTree = modelZero, hProjectedTree = pf_fFieldZero pf, hDetached = Some field\<rparr> in
      case EnsureValidMapping h (Detached, []) fieldMap of
        Inl e \<Rightarrow> ends_with e pf
      | Inr u \<Rightarrow>
     (case EnsureValidMappings h (map (Pair Detached) (descendants field)) fieldMap of
        Inl e \<Rightarrow> ends_with e pf
      | Inr u \<Rightarrow>
       (let n = length (fSubFields (pf_fFieldZero pf));
            pf1 = pf\<lparr>pf_fFieldMap :=
                       insert_range (map (\<lambda>(k, v). (attached_ptr n k, attached_ptr n v)) fieldMap)
                                    (pf_fFieldMap pf)\<rparr>;
            pf2 = pf1\<lparr>pf_fFieldZero := Attach (pf_fFieldZero pf1) field\<rparr>
        in Completes (Inr ()) pf2)))"

text \<open>\<^verbatim>\<open>RProjectedFields::GetSourceField\<close>.\<close>

definition GetSourceField :: "RProjectedFields \<Rightarrow> field_ptr \<Rightarrow> field_ptr option" where
  "GetSourceField pf target = map_of (pf_fFieldMap pf) target"

subsection \<open>Entries and the model\<close>

text \<open>
  A value of an entry: \<^verbatim>\<open>field->CreateValue()\<close> owns a default-constructed object,
  \<^verbatim>\<open>field->BindValue(nullptr)\<close> is bound to nothing.
\<close>

datatype RValue = CreateValue RFieldBase | BindValue_nullptr RFieldBase

record REntry =
  e_fModelId :: u64
  e_fSchemaId :: u64
  e_fValues :: "RValue list"

text \<open>\<^verbatim>\<open>new REntry(modelId, schemaId)\<close> and \<^verbatim>\<open>REntry::AddValue\<close>.\<close>

definition new_REntry :: "u64 \<Rightarrow> u64 \<Rightarrow> REntry" where
  "new_REntry modelId schemaId = \<lparr>e_fModelId = modelId, e_fSchemaId = schemaId, e_fValues = []\<rparr>"

definition AddValue :: "RValue \<Rightarrow> REntry \<Rightarrow> REntry" where
  "AddValue v e = e\<lparr>e_fValues := e_fValues e @ [v]\<rparr>"

record RFieldToken =
  t_fIndex :: nat
  t_fSchemaId :: u64

datatype RBulk = RBulk field_ptr

record RNTupleModel =
  fFieldZero :: RFieldBase
  fDefaultEntry :: "REntry option"
  fFieldNames :: "string set"
  fDescription :: string
  fProjectedFields :: "RProjectedFields option"
  fIsFrozen :: bool
  fModelId :: u64
  fSchemaId :: u64

definition IsFrozen :: "RNTupleModel \<Rightarrow> bool" where
  "IsFrozen m = fIsFrozen m"

definition IsBare :: "RNTupleModel \<Rightarrow> bool" where
  "IsBare m = (fDefaultEntry m = None)"

text \<open>
  The constructor \<^verbatim>\<open>RNTupleModel(std::unique_ptr<RFieldZero> fieldZero)\<close>: it draws a
  model id and copies it into the schema id. The members without an initialiser in the
  constructor start empty, null and not frozen.
\<close>

definition RNTupleModel_ctor :: "u64 \<Rightarrow> RFieldBase \<Rightarrow> u64 \<times> RNTupleModel" where
  "RNTupleModel_ctor g fieldZero =
     (case GetNewModelId g of
        (newId, g') \<Rightarrow>
          (g', \<lparr>fFieldZero = fieldZero, fDefaultEntry = None, fFieldNames = {},
                fDescription = [], fProjectedFields = None, fIsFrozen = False,
                fModelId = newId, fSchemaId = newId\<rparr>))"

definition new_RProjectedFields :: RProjectedFields where
  "new_RProjectedFields = \<lparr>pf_fFieldZero = RFieldZero, pf_fFieldMap = []\<rparr>"

definition CreateBare :: "u64 \<Rightarrow> RFieldBase \<Rightarrow> u64 \<times> RNTupleModel" where
  "CreateBare g fieldZero =
     (case RNTupleModel_ctor g fieldZero of
        (g', model) \<Rightarrow> (g', model\<lparr>fProjectedFields := Some new_RProjectedFields\<rparr>))"

definition Create :: "u64 \<Rightarrow> RFieldBase \<Rightarrow> u64 \<times> RNTupleModel" where
  "Create g fieldZero =
     (case CreateBare g fieldZero of
        (g', model) \<Rightarrow>
          (g', model\<lparr>fDefaultEntry := Some (new_REntry (fModelId model) (fSchemaId model))\<rparr>))"

definition EnsureNotFrozen :: "RNTupleModel \<Rightarrow> error + unit" where
  "EnsureNotFrozen m =
     (if IsFrozen m then Inl (RException ''invalid attempt to modify frozen model'') else Inr ())"

definition EnsureNotBare :: "RNTupleModel \<Rightarrow> error + unit" where
  "EnsureNotBare m =
     (if IsBare m then Inl (RException ''invalid attempt to use default entry of bare model'')
      else Inr ())"

text \<open>\<^verbatim>\<open>RResult::Throw\<close>: the error of a failed result is thrown as an exception.\<close>

definition Throw :: "error \<Rightarrow> error" where
  "Throw e = (case e of RFail msg \<Rightarrow> RException msg | _ \<Rightarrow> e)"

text \<open>
  \<^verbatim>\<open>RNTupleModel::EnsureValidFieldName\<close>. The static
  \<^verbatim>\<open>RFieldBase::EnsureValidFieldName\<close> is defined in a file that is not part of the
  sources at hand; it is the parameter \<open>nameCheck\<close>.
\<close>

definition EnsureValidFieldName :: "(string \<Rightarrow> error + unit) \<Rightarrow> string \<Rightarrow> RNTupleModel \<Rightarrow> error + unit" where
  "EnsureValidFieldName nameCheck fieldName m =
     (case nameCheck fieldName of
        Inl e \<Rightarrow> Inl (Throw e)
      | Inr u \<Rightarrow>
          if fieldName \<in> fFieldNames m then
            Inl (RException (''field name '' @ [CHR 0x27] @ fieldName @ [CHR 0x27] @
                             '' already exists in NTuple model''))
          else Inr ())"

text \<open>
  Modelled from the spec: \<^verbatim>\<open>ROOT::Split\<close> is defined in a file that is not part of the
  sources at hand; it cuts the string at every occurrence of the delimiter, and
  \<^verbatim>\<open>FindField\<close> looks the segments up one by one.
\<close>

fun Split :: "string \<Rightarrow> char \<Rightarrow> string list" where
  "Split [] d = ['''']"
| "Split (c # cs) d =
     (if c = d then [] # Split cs d
      else (case Split cs d of [] \<Rightarrow> [c # []] | w # ws \<Rightarrow> (c # w) # ws))"

text \<open>\<^verbatim>\<open>std::find_if\<close>: the position of the first element that satisfies the predicate.\<close>

fun find_if :: "('a \<Rightarrow> bool) \<Rightarrow> 'a list \<Rightarrow> nat option" where
  "find_if P [] = None"
| "find_if P (x # xs) = (if P x then Some 0 else map_option Suc (find_if P xs))"

text \<open>
  The loop of \<^verbatim>\<open>RNTupleModel::FindField\<close> over the segments; \<open>path\<close> is the path of
  \<open>field\<close>, the field reached so far.
\<close>

fun FindField_loop :: "RFieldBase \<Rightarrow> nat list \<Rightarrow> string list \<Rightarrow> nat list option" where
  "FindField_loop field path [] = Some path"
| "FindField_loop field path (subfieldName # rest) =
     (case find_if (\<lambda>f. fName f = subfieldName) (fSubFields field) of
        None \<Rightarrow> None
      | Some i \<Rightarrow> FindField_loop (fSubFields field ! i) (path @ [i]) rest)"

definition FindField :: "RNTupleModel \<Rightarrow> string \<Rightarrow> field_ptr option" where
  "FindField m fieldName =
     (if fieldName = [] then None
      else map_option (Pair ModelTree) (FindField_loop (fFieldZero m) [] (Split fieldName CHR ''.'')))"

definition GetField :: "RNTupleModel \<Rightarrow> string \<Rightarrow> error + field_ptr" where
  "GetField m fieldName =
     (case FindField m fieldName of
        None \<Rightarrow> Inl (RException (''invalid field: '' @ fieldName))
      | Some f \<Rightarrow> Inr f)"

text \<open>
  \<^verbatim>\<open>RNTupleModel::AddField\<close>. A null \<^verbatim>\<open>unique_ptr\<close> is \<open>None\<close>. The result pairs
  what the call returns or throws with the model afterwards.
\<close>

definition AddField :: "(string \<Rightarrow> error + unit) \<Rightarrow> RFieldBase option \<Rightarrow> RNTupleModel
    \<Rightarrow> (error + unit) \<times> RNTupleModel" where
  "AddField nameCheck field m =
     (case EnsureNotFrozen m of
        Inl e \<Rightarrow> (Inl e, m)
      | Inr u \<Rightarrow>
     (case field of
        None \<Rightarrow> (Inl (RException ''null field''), m)
      | Some f \<Rightarrow>
     (case EnsureValidFieldName nameCheck (fName f) m of
        Inl e \<Rightarrow> (Inl e, m)
      | Inr u \<Rightarrow>
       (let m1 = (case fDefaultEntry m of
                    None \<Rightarrow> m
                  | Some e \<Rightarrow> m\<lparr>fDefaultEntry := Some (AddValue (CreateValue f) e)\<rparr>);
            m2 = m1\<lparr>fFieldNames := insert (fName f) (fFieldNames m1)\<rparr>;
            m3 = m2\<lparr>fFieldZero := Attach (fFieldZero m2) f\<rparr>
        in (Inr (), m3)))))"

text \<open>
  The field trees a member function of the model can reach through pointers: the fields
  of the model, its projected fields and, while a field is being added, that field.
\<close>

definition model_heap :: "RNTupleModel \<Rightarrow> RFieldBase option \<Rightarrow> heap" where
  "model_heap m detached =
     \<lparr>hModelTree = fFieldZero m,
      hProjectedTree = (case fProjectedFields m of None \<Rightarrow> RFieldZero
                        | Some pf \<Rightarrow> pf_fFieldZero pf),
      hDetached = detached\<rparr>"

text \<open>
  The loop of \<^verbatim>\<open>RNTupleModel::AddProjectedField\<close> over the subfields of the new field:
  each one is looked up under the name the mapping gives for its qualified name and is
  entered into the local field map.
\<close>

fun AddProjectedField_loop :: "RNTupleModel \<Rightarrow> (string \<Rightarrow> string) \<Rightarrow> heap \<Rightarrow> string
    \<Rightarrow> nat list list \<Rightarrow> FieldMap_t \<Rightarrow> error + FieldMap_t" where
  "AddProjectedField_loop m mapping h fieldName [] fieldMap = Inr fieldMap"
| "AddProjectedField_loop m mapping h fieldName (subField # rest) fieldMap =
     (case GetQualifiedFieldName h (Detached, subField) of
        None \<Rightarrow> Inl InvalidPointer
      | Some qualifiedName \<Rightarrow>
     (case FindField m (mapping qualifiedName) of
        None \<Rightarrow> Inl (RFail (''no such field: '' @ mapping fieldName))
      | Some sourceField \<Rightarrow>
          AddProjectedField_loop m mapping h fieldName rest
            (AList.update (Detached, subField) sourceField fieldMap)))"

text \<open>
  \<^verbatim>\<open>RNTupleModel::AddProjectedField\<close>. A call that completes has what it returns or
  throws and the model afterwards; a crash in \<^verbatim>\<open>RProjectedFields::Add\<close> is a crash
  of the call.
\<close>

definition AddProjectedField :: "(string \<Rightarrow> error + unit) \<Rightarrow> RFieldBase option \<Rightarrow> (string \<Rightarrow> string)
    \<Rightarrow> RNTupleModel \<Rightarrow> RNTupleModel outcome" where
  "AddProjectedField nameCheck field mapping m =
     (case EnsureNotFrozen m of
        Inl e \<Rightarrow> Completes (Inl e) m
      | Inr u \<Rightarrow>
     (case field of
        None \<Rightarrow> Completes (Inl (RFail ''null field'')) m
      | Some f \<Rightarrow>
       (let fieldName = fName f in
        case FindField m (mapping fieldName) of
          None \<Rightarrow> Completes (Inl (RFail (''no such field: '' @ mapping fieldName))) m
        | Some sourceField \<Rightarrow>
       (case AddProjectedField_loop m mapping (model_heap m (Some f)) fieldName (descendants f)
               (AList.update (Detached, []) sourceField []) of
          Inl e \<Rightarrow> ends_with e m
        | Inr fieldMap \<Rightarrow>
       (case EnsureValidFieldName nameCheck fieldName m of
          Inl e \<Rightarrow> Completes (Inl e) m
        | Inr u \<Rightarrow>
       (case fProjectedFields m of
          None \<Rightarrow> Crashes NullDeref
        | Some pf \<Rightarrow>
       (case Add (fFieldZero m) f fieldMap pf of
          Crashes e \<Rightarrow> Crashes e
        | Completes (Inl e) pf' \<Rightarrow> Completes (Inl e) (m\<lparr>fProjectedFields := Some pf'\<rparr>)
        | Completes (Inr u) pf' \<Rightarrow>
           (let m1 = m\<lparr>fProjectedFields := Some pf'\<rparr>;
                m2 = m1\<lparr>fFieldNames := insert fieldName (fFieldNames m1)\<rparr>
            in Completes (Inr ()) m2))))))))"

text \<open>
  The source path of the subfield at path \<open>p\<close> of the new field resolves: the name
  the mapping gives for its qualified name is found in the model, and the field map sends
  the subfield to the field found.
\<close>

definition resolved :: "RNTupleModel \<Rightarrow> (string \<Rightarrow> string) \<Rightarrow> heap \<Rightarrow> FieldMap_t \<Rightarrow> nat list \<Rightarrow> bool" where
  "resolved m mapping h fieldMap p =
     (case GetQualifiedFieldName h (Detached, p) of
        None \<Rightarrow> False
      | Some qn \<Rightarrow>
         (case FindField m (mapping qn) of
            None \<Rightarrow> False
          | Some src \<Rightarrow> map_of fieldMap (Detached, p) = Some src))"

subsection \<open>Accessors\<close>

text \<open>The non-const \<^verbatim>\<open>RNTupleModel::GetFieldZero\<close>.\<close>

definition GetFieldZero :: "RNTupleModel \<Rightarrow> error + RFieldBase" where
  "GetFieldZero m =
     (if \<not> IsFrozen m then
        Inl (RException ''invalid attempt to get mutable zero field of unfrozen model'')
      else Inr (fFieldZero m))"

text \<open>
  \<^verbatim>\<open>RNTupleModel::GetDefaultEntry\<close>, first the non-const overload, then the const
  one. A null \<^verbatim>\<open>fDefaultEntry\<close> is caught by \<^verbatim>\<open>EnsureNotBare\<close>.
\<close>

definition GetDefaultEntry :: "RNTupleModel \<Rightarrow> error + REntry" where
  "GetDefaultEntry m =
     (case EnsureNotBare m of
        Inl e \<Rightarrow> Inl e
      | Inr u \<Rightarrow> (case fDefaultEntry m of None \<Rightarrow> Inl NullDeref | Some e \<Rightarrow> Inr e))"

definition GetDefaultEntry_const :: "RNTupleModel \<Rightarrow> error + REntry" where
  "GetDefaultEntry_const m =
     (if \<not> IsFrozen m then
        Inl (RException ''invalid attempt to get default entry of unfrozen model'')
      else
       (case EnsureNotBare m of
          Inl e \<Rightarrow> Inl e
        | Inr u \<Rightarrow> (case fDefaultEntry m of None \<Rightarrow> Inl NullDeref | Some e \<Rightarrow> Inr e)))"

definition CreateEntry :: "RNTupleModel \<Rightarrow> error + REntry" where
  "CreateEntry m =
     (if \<not> IsFrozen m then
        Inl (RException ''invalid attempt to create entry of unfrozen model'')
      else
        Inr (fold (\<lambda>f entry. AddValue (CreateValue f) entry) (fSubFields (fFieldZero m))
                  (new_REntry (fModelId m) (fSchemaId m))))"

definition CreateBareEntry :: "RNTupleModel \<Rightarrow> error + REntry" where
  "CreateBareEntry m =
     (if \<not> IsFrozen m then
        Inl (RException ''invalid attempt to create entry of unfrozen model'')
      else
        Inr (fold (\<lambda>f entry. AddValue (BindValue_nullptr f) entry) (fSubFields (fFieldZero m))
                  (new_REntry (fModelId m) (fSchemaId m))))"

definition GetToken :: "RNTupleModel \<Rightarrow> string \<Rightarrow> error + RFieldToken" where
  "GetToken m fieldName =
     (case find_if (\<lambda>f. fName f = fieldName) (fSubFields (fFieldZero m)) of
        None \<Rightarrow> Inl (RException (''invalid field name: '' @ fieldName))
      | Some i \<Rightarrow> Inr \<lparr>t_fIndex = i, t_fSchemaId = fSchemaId m\<rparr>)"

definition CreateBulk :: "RNTupleModel \<Rightarrow> string \<Rightarrow> error + RBulk" where
  "CreateBulk m fieldName =
     (if \<not> IsFrozen m then
        Inl (RException ''invalid attempt to create bulk of unfrozen model'')
      else
       (case FindField m fieldName of
          None \<Rightarrow> Inl (RException (''no such field: '' @ fieldName))
        | Some f \<Rightarrow> Inr (RBulk f)))"

subsection \<open>Freezing, unfreezing and cloning\<close>

text \<open>\<^verbatim>\<open>RNTupleModel::Unfreeze\<close>; the counter of model ids goes in and out.\<close>

definition Unfreeze :: "u64 \<Rightarrow> RNTupleModel \<Rightarrow> u64 \<times> RNTupleModel" where
  "Unfreeze g m =
     (if \<not> IsFrozen m then (g, m)
      else
       (case GetNewModelId g of
          (newId, g') \<Rightarrow>
            (let m1 = m\<lparr>fModelId := newId\<rparr>;
                 m2 = m1\<lparr>fSchemaId := fModelId m1\<rparr>;
                 m3 = (case fDefaultEntry m2 of
                         None \<Rightarrow> m2
                       | Some e \<Rightarrow>
                           m2\<lparr>fDefaultEntry :=
                                 Some (e\<lparr>e_fModelId := fModelId m2, e_fSchemaId := fSchemaId m2\<rparr>)\<rparr>)
             in (g', m3\<lparr>fIsFrozen := False\<rparr>))))"

definition Freeze :: "RNTupleModel \<Rightarrow> RNTupleModel" where
  "Freeze m = m\<lparr>fIsFrozen := True\<rparr>"

definition SetDescription :: "string \<Rightarrow> RNTupleModel \<Rightarrow> (error + unit) \<times> RNTupleModel" where
  "SetDescription description m =
     (case EnsureNotFrozen m of
        Inl e \<Rightarrow> (Inl e, m)
      | Inr u \<Rightarrow> (Inr (), m\<lparr>fDescription := description\<rparr>))"

text \<open>
  \<^verbatim>\<open>RFieldBase::Clone(newName)\<close>: a deep copy of the field under a new name. A copy
  of a value is the value.
\<close>

definition Clone_field :: "RFieldBase \<Rightarrow> string \<Rightarrow> RFieldBase" where
  "Clone_field f newName =
     RFieldBase newName (fType f) (fStructure f) (fNRepetitions f) (isCardinality f) (fSubFields f)"

text \<open>
  \<^verbatim>\<open>RProjectedFields::Clone\<close>. The inner loop looks among the fields of the cloned
  zero field for the first one with the qualified name of the key \<open>k\<close>; the outer loop
  runs through the field map. \<open>h\<close> holds the trees of the model that is cloned,
  \<open>h'\<close> those of the clone.
\<close>

fun Clone_inner :: "heap \<Rightarrow> string \<Rightarrow> nat list list \<Rightarrow> error + field_ptr option" where
  "Clone_inner h' kName [] = Inr None"
| "Clone_inner h' kName (f # fs) =
     (case GetQualifiedFieldName h' (ProjectedTree, f) of
        None \<Rightarrow> Inl InvalidPointer
      | Some fName' \<Rightarrow>
          if fName' = kName then Inr (Some (ProjectedTree, f)) else Clone_inner h' kName fs)"

fun Clone_outer :: "heap \<Rightarrow> heap \<Rightarrow> RNTupleModel \<Rightarrow> FieldMap_t \<Rightarrow> FieldMap_t \<Rightarrow> error + FieldMap_t" where
  "Clone_outer h h' newModel [] cloneMap = Inr cloneMap"
| "Clone_outer h h' newModel ((k, v) # rest) cloneMap =
     (case GetQualifiedFieldName h k of
        None \<Rightarrow> Inl InvalidPointer
      | Some kName \<Rightarrow>
     (case Clone_inner h' kName (descendants (hProjectedTree h')) of
        Inl e \<Rightarrow> Inl e
      | Inr None \<Rightarrow> Clone_outer h h' newModel rest cloneMap
      | Inr (Some f) \<Rightarrow>
         (case GetQualifiedFieldName h v of
            None \<Rightarrow> Inl InvalidPointer
          | Some vName \<Rightarrow>
             (case GetField newModel vName of
                Inl e \<Rightarrow> Inl e
              | Inr src \<Rightarrow> Clone_outer h h' newModel rest (AList.update f src cloneMap)))))"

definition Clone_projected :: "RFieldBase \<Rightarrow> RProjectedFields \<Rightarrow> RNTupleModel \<Rightarrow> error + RProjectedFields" where
  "Clone_projected modelZero pf newModel =
     (let cloneFieldZero = Clone_field (pf_fFieldZero pf) [];
          h = \<lparr>hModelTree = modelZero, hProjectedTree = pf_fFieldZero pf, hDetached = None\<rparr>;
          h' = \<lparr>hModelTree = fFieldZero newModel, hProjectedTree = cloneFieldZero, hDetached = None\<rparr>
      in case Clone_outer h h' newModel (pf_fFieldMap pf) [] of
           Inl e \<Rightarrow> Inl e
         | Inr cloneMap \<Rightarrow> Inr \<lparr>pf_fFieldZero = cloneFieldZero, pf_fFieldMap = cloneMap\<rparr>)"

text \<open>
  \<^verbatim>\<open>RNTupleModel::Clone\<close>. The constructor of the clone draws one id, the assignment
  to \<^verbatim>\<open>cloneModel->fModelId\<close> a second one.
\<close>

definition Clone :: "u64 \<Rightarrow> RNTupleModel \<Rightarrow> u64 \<times> (error + RNTupleModel)" where
  "Clone g m =
     (case RNTupleModel_ctor g (Clone_field (fFieldZero m) []) of
        (g1, c0) \<Rightarrow>
     (case GetNewModelId g1 of
        (newId, g2) \<Rightarrow>
       (let c1 = c0\<lparr>fModelId := newId\<rparr>;
            c2 = (if fIsFrozen m then c1\<lparr>fSchemaId := fSchemaId m\<rparr>
                  else c1\<lparr>fSchemaId := fModelId c1\<rparr>);
            c3 = c2\<lparr>fIsFrozen := fIsFrozen m\<rparr>;
            c4 = c3\<lparr>fFieldNames := fFieldNames m\<rparr>;
            c5 = c4\<lparr>fDescription := fDescription m\<rparr>
        in case fProjectedFields m of
             None \<Rightarrow> (g2, Inl NullDeref)
           | Some pf \<Rightarrow>
          (case Clone_projected (fFieldZero m) pf c5 of
             Inl e \<Rightarrow> (g2, Inl e)
           | Inr pf' \<Rightarrow>
              (let c6 = c5\<lparr>fProjectedFields := Some pf'\<rparr>;
                   c7 = (case fDefaultEntry m of
                           None \<Rightarrow> c6
                         | Some e \<Rightarrow>
                             c6\<lparr>fDefaultEntry :=
                                   Some (fold (\<lambda>f entry. AddValue (CreateValue f) entry)
                                              (fSubFields (fFieldZero c6))
                                              (new_REntry (fModelId c6) (fSchemaId c6)))\<rparr>)
               in (g2, Inr c7))))))"

subsection \<open>The updater\<close>

text \<open>
  The sink is an external collaborator; what matters of it are the calls of
  \<^verbatim>\<open>UpdateSchema(changeset, firstEntry)\<close> it receives. A changeset refers to the
  model of the writer and lists the pointers of the fields and projected fields added.
\<close>

record RNTupleModelChangeset =
  fAddedFields :: "field_ptr list"
  fAddedProjectedFields :: "field_ptr list"

record RNTupleWriter =
  w_fModel :: RNTupleModel
  w_fNEntries :: u64
  w_sink_UpdateSchema_calls :: "(RNTupleModelChangeset \<times> u64) list"

text \<open>
  Modelled from the spec: the class \<^verbatim>\<open>RUpdater\<close> and \<^verbatim>\<open>RNTupleModelChangeset::IsEmpty\<close>
  are declared in a header that is not part of the sources at hand. The placeholder
  \<^verbatim>\<open>fNewModelId\<close> starts as zero, and a changeset is empty when it lists no added field
  and no added projected field.
\<close>

record RUpdater =
  fWriter :: RNTupleWriter
  fOpenChangeset :: RNTupleModelChangeset
  fNewModelId :: u64

definition IsEmpty :: "RNTupleModelChangeset \<Rightarrow> bool" where
  "IsEmpty c = (fAddedFields c = [] \<and> fAddedProjectedFields c = [])"

definition RUpdater_ctor :: "RNTupleWriter \<Rightarrow> RUpdater" where
  "RUpdater_ctor writer =
     \<lparr>fWriter = writer,
      fOpenChangeset = \<lparr>fAddedFields = [], fAddedProjectedFields = []\<rparr>,
      fNewModelId = 0\<rparr>"

definition BeginUpdate :: "u64 \<Rightarrow> RUpdater \<Rightarrow> u64 \<times> RUpdater" where
  "BeginUpdate g u =
     (case Unfreeze g (w_fModel (fWriter u)) of
        (g', m1) \<Rightarrow>
          (g', u\<lparr>fWriter := (fWriter u)\<lparr>w_fModel := m1\<lparr>fModelId := fNewModelId u\<rparr>\<rparr>,
                 fNewModelId := fModelId m1\<rparr>))"

definition CommitUpdate :: "RUpdater \<Rightarrow> RUpdater" where
  "CommitUpdate u =
     (let m1 = Freeze (w_fModel (fWriter u));
          u1 = u\<lparr>fWriter := (fWriter u)\<lparr>w_fModel := m1\<lparr>fModelId := fNewModelId u\<rparr>\<rparr>,
                 fNewModelId := fModelId m1\<rparr>
      in if IsEmpty (fOpenChangeset u1) then u1
         else
          (let toCommit = fOpenChangeset u1;
               u2 = u1\<lparr>fOpenChangeset := \<lparr>fAddedFields = [], fAddedProjectedFields = []\<rparr>\<rparr>
           in u2\<lparr>fWriter := (fWriter u2)\<lparr>w_sink_UpdateSchema_calls :=
                     w_sink_UpdateSchema_calls (fWriter u2) @ [(toCommit, w_fNEntries (fWriter u2))]\<rparr>\<rparr>))"

text \<open>
  \<^verbatim>\<open>RUpdater::AddField\<close> and \<^verbatim>\<open>RUpdater::AddProjectedField\<close>. The pointer
  \<^verbatim>\<open>fieldp\<close> taken before the call is, after it, the pointer of the last subfield of
  the zero field the field was attached to.
\<close>

definition Updater_AddField :: "(string \<Rightarrow> error + unit) \<Rightarrow> RFieldBase option \<Rightarrow> RUpdater
    \<Rightarrow> (error + unit) \<times> RUpdater" where
  "Updater_AddField nameCheck field u =
     (let fieldp = (ModelTree, [length (fSubFields (fFieldZero (w_fModel (fWriter u))))]) in
      case AddField nameCheck field (w_fModel (fWriter u)) of
        (Inl e, m') \<Rightarrow> (Inl e, u\<lparr>fWriter := (fWriter u)\<lparr>w_fModel := m'\<rparr>\<rparr>)
      | (Inr x, m') \<Rightarrow>
          (Inr (), u\<lparr>fWriter := (fWriter u)\<lparr>w_fModel := m'\<rparr>,
                    fOpenChangeset := (fOpenChangeset u)\<lparr>fAddedFields :=
                       fAddedFields (fOpenChangeset u) @ [fieldp]\<rparr>\<rparr>))"

definition Updater_AddProjectedField :: "(string \<Rightarrow> error + unit) \<Rightarrow> RFieldBase option
    \<Rightarrow> (string \<Rightarrow> string) \<Rightarrow> RUpdater \<Rightarrow> RUpdater outcome" where
  "Updater_AddProjectedField nameCheck field mapping u =
     (let fieldp = (ProjectedTree,
                    [case fProjectedFields (w_fModel (fWriter u)) of None \<Rightarrow> 0
                     | Some pf \<Rightarrow> length (fSubFields (pf_fFieldZero pf))]) in
      case AddProjectedField nameCheck field mapping (w_fModel (fWriter u)) of
        Crashes e \<Rightarrow> Crashes e
      | Completes (Inl e) m' \<Rightarrow> Completes (Inl e) (u\<lparr>fWriter := (fWriter u)\<lparr>w_fModel := m'\<rparr>\<rparr>)
      | Completes (Inr x) m' \<Rightarrow>
          Completes (Inr ())
            (u\<lparr>fWriter := (fWriter u)\<lparr>w_fModel := m'\<rparr>,
               fOpenChangeset := (fOpenChangeset u)\<lparr>fAddedProjectedFields :=
                  fAddedProjectedFields (fOpenChangeset u) @ [fieldp]\<rparr>\<rparr>))"

text \<open>
  What a client does between \<^verbatim>\<open>BeginUpdate\<close> and \<^verbatim>\<open>CommitUpdate\<close>: a sequence of
  calls of \<^verbatim>\<open>RUpdater::AddField\<close> and \<^verbatim>\<open>RUpdater::AddProjectedField\<close>. A call
  that throws or fails leaves the updater as the call left it, and the client goes on;
  after a crash there is no updater to go on with.
\<close>

datatype updater_call =
    Call_AddField "RFieldBase option"
  | Call_AddProjectedField "RFieldBase option" "string \<Rightarrow> string"

fun Updater_calls :: "(string \<Rightarrow> error + unit) \<Rightarrow> updater_call list \<Rightarrow> RUpdater
    \<Rightarrow> RUpdater option" where
  "Updater_calls nameCheck [] u = Some u"
| "Updater_calls nameCheck (Call_AddField field # calls) u =
     Updater_calls nameCheck calls (snd (Updater_AddField nameCheck field u))"
| "Updater_calls nameCheck (Call_AddProjectedField field mapping # calls) u =
     (case Updater_AddProjectedField nameCheck field mapping u of
        Crashes e \<Rightarrow> None
      | Completes res u' \<Rightarrow> Updater_calls nameCheck calls u')"

subsection \<open>Reachable models\<close>

text \<open>The two identifiers of a model, side by side.\<close>

definition ids_of :: "RNTupleModel \<Rightarrow> u64 \<times> u64" where
  "ids_of m = (fModelId m, fSchemaId m)"

text \<open>
  \<open>reachable cl nameCheck g m\<close>: the model \<open>m\<close> exists while the counter of model
  ids stands at \<open>g\<close>. A model comes from \<^verbatim>\<open>CreateBare\<close> or \<^verbatim>\<open>Create\<close> (at any
  state of the counter, since other models may have been created before) and is changed by
  the public member functions, whether they succeed or throw (a call that crashes leaves no
  model); ids may be drawn for other models in between. With \<open>cl\<close> set, a model may also come from \<^verbatim>\<open>Clone\<close>.
\<close>

inductive reachable :: "bool \<Rightarrow> (string \<Rightarrow> error + unit) \<Rightarrow> u64 \<Rightarrow> RNTupleModel \<Rightarrow> bool"
  for cl :: bool and nameCheck :: "string \<Rightarrow> error + unit" where
  r_CreateBare: "CreateBare g fieldZero = (g', m) \<Longrightarrow> reachable cl nameCheck g' m"
| r_Create: "Create g fieldZero = (g', m) \<Longrightarrow> reachable cl nameCheck g' m"
| r_Clone: "reachable cl nameCheck g m \<Longrightarrow> cl \<Longrightarrow> Clone g m = (g', Inr c)
     \<Longrightarrow> reachable cl nameCheck g' c"
| r_other_id: "reachable cl nameCheck g m \<Longrightarrow> GetNewModelId g = (i, g')
     \<Longrightarrow> reachable cl nameCheck g' m"
| r_AddField: "reachable cl nameCheck g m \<Longrightarrow> AddField nameCheck field m = (res, m')
     \<Longrightarrow> reachable cl nameCheck g m'"
| r_AddProjectedField: "reachable cl nameCheck g m
     \<Longrightarrow> AddProjectedField nameCheck field mapping m = Completes res m'
     \<Longrightarrow> reachable cl nameCheck g m'"
| r_SetDescription: "reachable cl nameCheck g m \<Longrightarrow> SetDescription d m = (res, m')
     \<Longrightarrow> reachable cl nameCheck g m'"
| r_Freeze: "reachable cl nameCheck g m \<Longrightarrow> reachable cl nameCheck g (Freeze m)"
| r_Unfreeze: "reachable cl nameCheck g m \<Longrightarrow> Unfreeze g m = (g', m')
     \<Longrightarrow> reachable cl nameCheck g' m'"

text \<open>
  \<open>updating cl nameCheck window g u\<close>: the updater \<open>u\<close> of a writer on a reachable
  model, used as its protocol says: \<^verbatim>\<open>BeginUpdate\<close>, then any number of
  \<^verbatim>\<open>AddField\<close> and \<^verbatim>\<open>AddProjectedField\<close>, then \<^verbatim>\<open>CommitUpdate\<close>, and again.
  \<open>window\<close> tells whether an update has begun and is not committed yet.
\<close>

inductive updating :: "bool \<Rightarrow> (string \<Rightarrow> error + unit) \<Rightarrow> bool \<Rightarrow> u64 \<Rightarrow> RUpdater \<Rightarrow> bool"
  for cl :: bool and nameCheck :: "string \<Rightarrow> error + unit" where
  u_ctor: "reachable cl nameCheck g m
     \<Longrightarrow> updating cl nameCheck False g
           (RUpdater_ctor \<lparr>w_fModel = m, w_fNEntries = n, w_sink_UpdateSchema_calls = calls\<rparr>)"
| u_other_id: "updating cl nameCheck w g u \<Longrightarrow> GetNewModelId g = (i, g')
     \<Longrightarrow> updating cl nameCheck w g' u"
| u_Fill: "updating cl nameCheck w g u
     \<Longrightarrow> updating cl nameCheck w g (u\<lparr>fWriter := (fWriter u)\<lparr>w_fNEntries := n\<rparr>\<rparr>)"
| u_BeginUpdate: "updating cl nameCheck False g u \<Longrightarrow> BeginUpdate g u = (g', u')
     \<Longrightarrow> updating cl nameCheck True g' u'"
| u_AddField: "updating cl nameCheck True g u \<Longrightarrow> Updater_AddField nameCheck field u = (res, u')
     \<Longrightarrow> updating cl nameCheck True g u'"
| u_AddProjectedField: "updating cl nameCheck True g u
     \<Longrightarrow> Updater_AddProjectedField nameCheck field mapping u = Completes res u'
     \<Longrightarrow> updating cl nameCheck True g u'"
| u_CommitUpdate: "updating cl nameCheck True g u \<Longrightarrow> updating cl nameCheck False g (CommitUpdate u)"

subsection \<open>The set of field names and the top-level fields\<close>



section \<open>Pages and the page pool\<close>

text \<open>
  Modelled from the spec: the classes \<^verbatim>\<open>RPage\<close>, \<^verbatim>\<open>RPageAllocatorHeap\<close> and
  \<^verbatim>\<open>RPagePool\<close> are defined in files that are not part of the sources at hand; only
  their tests are. A page is a window into a buffer: capacity, element count, element size
  and the cluster window; the null page has no buffer. The cluster window gives the first
  global row of the page and, through the index offset of the cluster, its first row
  within the cluster.
\<close>

record RClusterInfo =
  ci_fId :: nat
  ci_fIndexOffset :: nat

record RPage =
  p_fBuffer :: "nat option"
  p_fElementSize :: nat
  p_fMaxElements :: nat
  p_fNElements :: nat
  p_fRangeFirst :: nat
  p_fClusterInfo :: RClusterInfo

definition null_page :: RPage where
  "null_page = \<lparr>p_fBuffer = None, p_fElementSize = 0, p_fMaxElements = 0, p_fNElements = 0,
                 p_fRangeFirst = 0, p_fClusterInfo = \<lparr>ci_fId = 0, ci_fIndexOffset = 0\<rparr>\<rparr>"

definition IsNull :: "RPage \<Rightarrow> bool" where
  "IsNull p = (p_fBuffer p = None)"

text \<open>
  Modelled from the spec: \<^verbatim>\<open>NewPage(elementSize, maxElements)\<close> returns a page with
  element count 0 and a default, empty cluster window. The allocator is the address of the
  next buffer it hands out.
\<close>

definition NewPage :: "nat \<Rightarrow> nat \<Rightarrow> nat \<Rightarrow> RPage \<times> nat" where
  "NewPage elementSize maxElements allocator =
     (\<lparr>p_fBuffer = Some allocator, p_fElementSize = elementSize, p_fMaxElements = maxElements,
       p_fNElements = 0, p_fRangeFirst = 0,
       p_fClusterInfo = \<lparr>ci_fId = 0, ci_fIndexOffset = 0\<rparr>\<rparr>,
      allocator + elementSize * maxElements)"

definition GrowUnchecked :: "nat \<Rightarrow> RPage \<Rightarrow> RPage" where
  "GrowUnchecked n p = p\<lparr>p_fNElements := n\<rparr>"

definition SetWindow :: "nat \<Rightarrow> RClusterInfo \<Rightarrow> RPage \<Rightarrow> RPage" where
  "SetWindow rangeFirst clusterInfo p = p\<lparr>p_fRangeFirst := rangeFirst, p_fClusterInfo := clusterInfo\<rparr>"

definition GetGlobalRangeFirst :: "RPage \<Rightarrow> int" where
  "GetGlobalRangeFirst p = int (p_fRangeFirst p)"

definition GetGlobalRangeLast :: "RPage \<Rightarrow> int" where
  "GetGlobalRangeLast p = int (p_fRangeFirst p) + int (p_fNElements p) - 1"

definition GetClusterRangeFirst :: "RPage \<Rightarrow> int" where
  "GetClusterRangeFirst p = int (p_fRangeFirst p) - int (ci_fIndexOffset (p_fClusterInfo p))"

definition GetClusterRangeLast :: "RPage \<Rightarrow> int" where
  "GetClusterRangeLast p = GetClusterRangeFirst p + int (p_fNElements p) - 1"

text \<open>
  The index a page is asked for: a global row index, or a cluster id with an index within
  the cluster.
\<close>

datatype page_index = GlobalIndex nat | RClusterIndex nat nat

fun Contains :: "RPage \<Rightarrow> page_index \<Rightarrow> bool" where
  "Contains p (GlobalIndex i) =
     (GetGlobalRangeFirst p \<le> int i \<and> int i \<le> GetGlobalRangeLast p)"
| "Contains p (RClusterIndex clusterId i) =
     (ci_fId (p_fClusterInfo p) = clusterId \<and>
      GetClusterRangeFirst p \<le> int i \<and> int i \<le> GetClusterRangeLast p)"

text \<open>
  Modelled from the spec: a pool entry is a pooled page, its key (column identifier and
  runtime element type) and a use count. The pool lists its entries, the oldest first.
\<close>

type_synonym RKey = "nat \<times> string"

record pool_entry =
  pe_page :: RPage
  pe_key :: RKey
  pe_useCount :: nat

type_synonym RPagePool = "pool_entry list"

text \<open>
  Modelled from the spec: \<^verbatim>\<open>RegisterPage\<close> takes the page and returns a reference
  whose use count starts at 1; \<^verbatim>\<open>PreloadPage\<close> is the same with a use count of 0.
  A reference is the page it refers to.
\<close>

definition RegisterPage :: "RPage \<Rightarrow> RKey \<Rightarrow> RPagePool \<Rightarrow> RPage \<times> RPagePool" where
  "RegisterPage page key pool = (page, pool @ [\<lparr>pe_page = page, pe_key = key, pe_useCount = 1\<rparr>])"

definition PreloadPage :: "RPage \<Rightarrow> RKey \<Rightarrow> RPagePool \<Rightarrow> RPagePool" where
  "PreloadPage page key pool = pool @ [\<lparr>pe_page = page, pe_key = key, pe_useCount = 0\<rparr>]"

text \<open>
  Modelled from the spec: \<^verbatim>\<open>GetPage\<close> scans the entries in order for one with the
  key whose window contains the index; on a hit it increments the use count and returns a
  reference to the page, on a miss it returns a reference to the null page.
\<close>

fun GetPage :: "RKey \<Rightarrow> page_index \<Rightarrow> RPagePool \<Rightarrow> RPage \<times> RPagePool" where
  "GetPage key idx [] = (null_page, [])"
| "GetPage key idx (e # es) =
     (if pe_key e = key \<and> Contains (pe_page e) idx then
        (pe_page e, e\<lparr>pe_useCount := pe_useCount e + 1\<rparr> # es)
      else (case GetPage key idx es of (p, es') \<Rightarrow> (p, e # es')))"

text \<open>
  Modelled from the spec: releasing a reference decrements the use count of the entry of
  its page and frees nothing; releasing a reference to the null page does nothing.
\<close>

fun ReleasePage :: "RPage \<Rightarrow> RPagePool \<Rightarrow> RPagePool" where
  "ReleasePage page [] = []"
| "ReleasePage page (e # es) =
     (if IsNull page then e # es
      else if pe_page e = page then e\<lparr>pe_useCount := pe_useCount e - 1\<rparr> # es
      else e # ReleasePage page es)"

text \<open>
  Modelled from the spec: \<^verbatim>\<open>Evict(maxCount)\<close> removes up to \<open>maxCount\<close> entries with
  use count 0, the oldest first.
\<close>

fun Evict :: "nat \<Rightarrow> RPagePool \<Rightarrow> RPagePool" where
  "Evict maxCount [] = []"
| "Evict maxCount (e # es) =
     (if 0 < maxCount \<and> pe_useCount e = 0 then Evict (maxCount - 1) es
      else e # Evict maxCount es)"

section \<open>Format compatibility\<close>

text \<open>
  Modelled from the spec: \<^verbatim>\<open>RPageSource::Attach\<close> and the deserialisation of the header
  are defined in files that are not part of the sources at hand; only a test is. The header
  of a stored dataset holds the feature flags, small non-negative integers, ahead of the
  descriptor. On open the reader decodes the flags before anything else and fails,
  reporting the unrecognised flag values, if a flag is outside the set it understands;
  otherwise the fields and pages of the dataset become accessible.
\<close>

record stored_dataset =
  sd_featureFlags :: "nat list"
  sd_fields :: "string list"
  sd_pages :: "nat list"

record RPageSource =
  ps_stored :: stored_dataset
  ps_accessibleFields :: "string list"
  ps_accessiblePages :: "nat list"

text \<open>\<^verbatim>\<open>std::to_string\<close> on a non-negative integer: its decimal digits.\<close>

fun to_string_fuel :: "nat \<Rightarrow> nat \<Rightarrow> string" where
  "to_string_fuel 0 n = []"
| "to_string_fuel (Suc k) n =
     (if n < 10 then [''0123456789'' ! n]
      else to_string_fuel k (n div 10) @ [''0123456789'' ! (n mod 10)])"

definition to_string :: "nat \<Rightarrow> string" where
  "to_string n = to_string_fuel (Suc n) n"

fun join_flags :: "nat list \<Rightarrow> string" where
  "join_flags [] = []"
| "join_flags [f] = to_string f"
| "join_flags (f # fs) = to_string f @ '', '' @ join_flags fs"

definition RPageSource_Create :: "stored_dataset \<Rightarrow> RPageSource" where
  "RPageSource_Create d = \<lparr>ps_stored = d, ps_accessibleFields = [], ps_accessiblePages = []\<rparr>"

definition Attach_source :: "nat list \<Rightarrow> RPageSource \<Rightarrow> (error + unit) \<times> RPageSource" where
  "Attach_source understood src =
     (case filter (\<lambda>f. f \<notin> set understood) (sd_featureFlags (ps_stored src)) of
        [] \<Rightarrow> (Inr (), src\<lparr>ps_accessibleFields := sd_fields (ps_stored src),
                             ps_accessiblePages := sd_pages (ps_stored src)\<rparr>)
      | f # fs \<Rightarrow> (Inl (RException (''unsupported format feature: '' @ join_flags (f # fs))), src))"

text \<open>A message names a flag when the decimal digits of the flag occur in it.\<close>

definition names_flag :: "string \<Rightarrow> nat \<Rightarrow> bool" where
  "names_flag msg f =
     list_ex (\<lambda>k. take (length (to_string f)) (drop k msg) = to_string f) [0..<Suc (length msg)]"

section \<open>Examples\<close>

text \<open>Fields, models and mappings the properties below are run on.\<close>

definition leaf :: "string \<Rightarrow> string \<Rightarrow> RFieldBase" where
  "leaf name type = RFieldBase name type kLeaf 0 False []"

definition variant_field :: "string \<Rightarrow> RFieldBase" where
  "variant_field name = RFieldBase name ''std::variant<int>'' kVariant 0 False [leaf ''_0'' ''int'']"

definition collection_field :: "string \<Rightarrow> RFieldBase" where
  "collection_field name = RFieldBase name ''std::vector<int>'' kCollection 0 False [leaf ''_0'' ''int'']"

text \<open>A name check that refuses the empty name.\<close>

definition nameCheck_ex :: "string \<Rightarrow> error + unit" where
  "nameCheck_ex name = (if name = [] then Inl (RFail ''name cannot be empty string'') else Inr ())"

text \<open>The first model of a process, with a variant field \<open>v\<close> and a leaf field \<open>x\<close>.\<close>

definition ex_model_vx :: RNTupleModel where
  "ex_model_vx = snd (AddField nameCheck_ex (Some (leaf ''x'' ''int''))
                   (snd (AddField nameCheck_ex (Some (variant_field ''v''))
                     (snd (Create gLastModelId_init RFieldZero)))))"

text \<open>The mapping \<open>p \<mapsto> v\<close>, \<open>p._0 \<mapsto> x\<close>.\<close>

definition ex_mapping_p :: "string \<Rightarrow> string" where
  "ex_mapping_p name = (if name = ''p'' then ''v'' else ''x'')"

text \<open>
  A model tree with a collection \<open>c\<close>, a detached variant field \<open>p\<close>, and the field
  map \<open>p \<mapsto> c\<close>, \<open>p._0 \<mapsto> c._0\<close>.
\<close>

definition ex_heap_cv :: heap where
  "ex_heap_cv = \<lparr>hModelTree = Attach RFieldZero (collection_field ''c''),
                  hProjectedTree = RFieldZero,
                  hDetached = Some (variant_field ''p'')\<rparr>"

definition ex_fieldMap_cv :: FieldMap_t where
  "ex_fieldMap_cv = [((Detached, []), (ModelTree, [0])), ((Detached, [0]), (ModelTree, [0, 0]))]"

text \<open>
  The first model of a process, with a collection field \<open>c\<close> and a leaf field \<open>x\<close>,
  and the mapping \<open>p \<mapsto> c\<close>, \<open>p._0 \<mapsto> x\<close>.
\<close>

definition ex_model_cx :: RNTupleModel where
  "ex_model_cx = snd (AddField nameCheck_ex (Some (leaf ''x'' ''int''))
                   (snd (AddField nameCheck_ex (Some (collection_field ''c''))
                     (snd (Create gLastModelId_init RFieldZero)))))"

definition ex_mapping_pc :: "string \<Rightarrow> string" where
  "ex_mapping_pc name = (if name = ''p'' then ''c'' else ''x'')"


text \<open>The updater of a writer on the frozen example model, with five rows written.\<close>

definition ex_updater :: RUpdater where
  "ex_updater = RUpdater_ctor \<lparr>w_fModel = Freeze ex_model_vx, w_fNEntries = 5,
                               w_sink_UpdateSchema_calls = []\<rparr>"

text \<open>
  The page of the pool tests: one-byte elements, ten of them, the window starting at global
  row 50 in cluster 2, which starts at row 40; and the key it is pooled under.
\<close>

definition ex_key :: RKey where
  "ex_key = (1, ''void'')"

definition ex_page :: RPage where
  "ex_page = SetWindow 50 \<lparr>ci_fId = 2, ci_fIndexOffset = 40\<rparr>
               (GrowUnchecked 10 (fst (NewPage 1 10 4096)))"

text \<open>The pool after the page was preloaded and then fetched once: one reference is out.\<close>

definition ex_pool_in_use :: RPagePool where
  "ex_pool_in_use = snd (GetPage ex_key (GlobalIndex 55) (PreloadPage ex_page ex_key []))"

text \<open>A stored dataset whose header declares the feature flag 137 of the compatibility test.\<close>

definition ex_dataset :: stored_dataset where
  "ex_dataset = \<lparr>sd_featureFlags = [137], sd_fields = [''''], sd_pages = []\<rparr>"

section \<open>Properties\<close>

subsection \<open>Pointers and parents\<close>

text \<open>
  The chain of parents is what following \<^verbatim>\<open>GetParent()\<close> visits: its head is the
  parent of the field, and its tail is the chain of that parent.
\<close>

lemma nodes_on_path_length:
  "nodes_on_path f p = Some ns \<Longrightarrow> length ns = Suc (length p)"
  by (induction f p arbitrary: ns rule: nodes_on_path.induct) (auto split: if_splits)

lemma nodes_on_path_snoc:
  "nodes_on_path f (p @ [i]) = Some ns \<Longrightarrow>
     nodes_on_path f p = Some (butlast ns) \<and> i < length (fSubFields (last (butlast ns))) \<and>
     last ns = fSubFields (last (butlast ns)) ! i"
proof (induction f p arbitrary: ns rule: nodes_on_path.induct)
  case (1 f)
  then show ?case by (auto split: if_splits)
next
  case (2 f j p)
  from "2.prems" obtain ms where j: "j < length (fSubFields f)"
    and ms: "nodes_on_path (fSubFields f ! j) (p @ [i]) = Some ms" and ns: "ns = f # ms"
    by (auto split: if_splits)
  from "2.IH" [OF j ms] nodes_on_path_length [OF ms] j ns show ?case
    by (cases ms rule: rev_cases) (auto simp: butlast_append split: if_splits)
qed

lemma parent_chain_parent:
  assumes "parent_chain h ptr = Some ((p, f) # rest)"
  shows "GetParent ptr = Some p \<and> deref h p = Some f \<and> parent_chain h p = Some rest"
proof -
  obtain r path where ptr: "ptr = (r, path)" by (cases ptr)
  from assms ptr obtain root ns where root: "root_of h r = Some root"
    and ns: "nodes_on_path root path = Some ns"
    and chain: "rev (zip (map (\<lambda>k. (r, take k path)) [0..<length path]) (butlast ns)) = (p, f) # rest"
    by (auto simp: parent_chain_def split: option.splits)
  from chain have "path \<noteq> []" by auto
  then obtain q i where path: "path = q @ [i]" by (cases path rule: rev_cases) auto
  from nodes_on_path_snoc [OF ns [unfolded path]]
  have q: "nodes_on_path root q = Some (butlast ns)" by simp
  from nodes_on_path_length [OF q] have len: "length (butlast ns) = Suc (length q)" .
  then obtain ms m where ms: "butlast ns = ms @ [m]" "length ms = length q"
    by (cases "butlast ns" rule: rev_cases) auto
  have idx: "map (\<lambda>k. (r, take k path)) [0..<length path]
               = map (\<lambda>k. (r, take k q)) [0..<length q] @ [(r, q)]"
    by (simp add: path)
  from chain ms idx have "(p, f) # rest
      = ((r, q), m) # rev (zip (map (\<lambda>k. (r, take k q)) [0..<length q]) ms)"
    by simp
  then have p: "p = (r, q)" and f: "f = m"
    and rest: "rest = rev (zip (map (\<lambda>k. (r, take k q)) [0..<length q]) (butlast (butlast ns)))"
    using ms by simp_all
  have "GetParent ptr = Some p"
    by (simp add: GetParent_def ptr path p)
  moreover have "deref h p = Some f"
    using root q ms by (simp add: deref_def p f)
  moreover have "parent_chain h p = Some rest"
    using root q by (simp add: parent_chain_def p rest)
  ultimately show ?thesis by blast
qed

subsection \<open>The generator of model ids\<close>

lemma issued_ids_eq: "issued_ids g n = map (\<lambda>k. g + of_nat k) [1..<Suc n]"
proof (induction n arbitrary: g)
  case 0
  then show ?case by simp
next
  case (Suc n)
  have "[1..<Suc (Suc n)] = 1 # map Suc [1..<Suc n]"
    by (metis One_nat_def map_Suc_upt upt_conv_Cons zero_less_Suc Suc_less_eq)
  then show ?case
    by (simp add: GetNewModelId_def Suc.IH comp_def algebra_simps del: upt_Suc)
qed

lemma issued_ids_init: "issued_ids gLastModelId_init n = map of_nat [1..<Suc n]"
  by (simp add: issued_ids_eq gLastModelId_init_def del: upt_Suc)

lemma unat_of_nat64: "k < 2 ^ 64 \<Longrightarrow> unat (of_nat k :: u64) = k"
  by (simp add: unat_of_nat)

lemma issued_ids_sorted:
  assumes "n < 2 ^ 64"
  shows "sorted_wrt (<) (issued_ids gLastModelId_init n)"
proof -
  have "sorted_wrt (\<lambda>a b. (of_nat a :: u64) < of_nat b) [1..<Suc n]"
  proof (rule sorted_wrt_mono_rel [OF _ sorted_wrt_upt])
    fix a b assume "a \<in> set [1..<Suc n]" "b \<in> set [1..<Suc n]" "a < b"
    with assms have "a < 2 ^ 64" "b < 2 ^ 64" by auto
    with \<open>a < b\<close> show "(of_nat a :: u64) < of_nat b"
      by (simp add: word_less_nat_alt unat_of_nat64)
  qed
  then show ?thesis
    by (simp add: issued_ids_init sorted_wrt_map del: upt_Suc)
qed

lemma issued_ids_nonzero:
  assumes "n < 2 ^ 64" "i \<in> set (issued_ids gLastModelId_init n)"
  shows "i \<noteq> 0"
proof -
  from assms(2) obtain k where k: "i = of_nat k" "1 \<le> k" "k \<le> n"
    by (auto simp: issued_ids_init simp del: upt_Suc)
  with assms(1) have "unat i = k" by (simp add: unat_of_nat64)
  with k show ?thesis by (metis not_one_le_zero unat_0)
qed

lemma RNTupleModel_ctor_ids: "ids_of (snd (RNTupleModel_ctor g fieldZero)) = (g + 1, g + 1)"
  by (simp add: RNTupleModel_ctor_def GetNewModelId_def ids_of_def)

text \<open>
  Claim C10, as stated, fails where the 64-bit counter wraps around: the call number
  \<open>2 ^ 64\<close> of \<^verbatim>\<open>GetNewModelId\<close> returns zero, and a model constructed by that call
  has the model id and the schema id zero, the placeholder of the updater.
\<close>

theorem GetNewModelId_wraps_to_zero:
  "last (issued_ids gLastModelId_init (2 ^ 64)) = 0 \<and>
   GetNewModelId (2 ^ 64 - 1) = (0, 0) \<and>
   ids_of (snd (RNTupleModel_ctor (2 ^ 64 - 1) RFieldZero)) = (0, 0)"
proof -
  have "issued_ids gLastModelId_init (2 ^ 64) = map of_nat [1..<Suc (2 ^ 64)]"
    by (rule issued_ids_init)
  also have "last \<dots> = (of_nat (2 ^ 64) :: u64)"
    by (simp add: last_map del: upt_Suc)
  finally have "last (issued_ids gLastModelId_init (2 ^ 64)) = 0" by simp
  moreover have "GetNewModelId (2 ^ 64 - 1) = (0, 0)"
    by (simp add: GetNewModelId_def)
  moreover have "ids_of (snd (RNTupleModel_ctor (2 ^ 64 - 1) RFieldZero)) = (0, 0)"
    by (simp add: RNTupleModel_ctor_ids)
  ultimately show ?thesis by blast
qed

text \<open>
  Claim C10, amended: as long as fewer than \<open>2 ^ 64\<close> ids have been drawn since the
  start of the process, the ids issued by \<^verbatim>\<open>GetNewModelId\<close> are strictly increasing from
  call to call and none is zero; a model constructed with one of them starts with this id
  as its model id and as its schema id, so that the zero placeholder of an updater window
  is the id of no such model.
\<close>

theorem GetNewModelId_increasing_nonzero:
  assumes "n < 2 ^ 64"
  shows "sorted_wrt (<) (issued_ids gLastModelId_init n) \<and>
         (\<forall>i \<in> set (issued_ids gLastModelId_init n).
            i \<noteq> 0 \<and> (\<forall>fieldZero. ids_of (snd (RNTupleModel_ctor (i - 1) fieldZero)) = (i, i)))"
proof (intro conjI ballI allI)
  show "sorted_wrt (<) (issued_ids gLastModelId_init n)"
    using assms by (rule issued_ids_sorted)
next
  fix i assume "i \<in> set (issued_ids gLastModelId_init n)"
  with assms show "i \<noteq> 0" by (rule issued_ids_nonzero)
next
  fix i fieldZero
  show "ids_of (snd (RNTupleModel_ctor (i - 1) fieldZero)) = (i, i)"
    by (simp add: RNTupleModel_ctor_ids)
qed

theorem GetNewModelId_increasing_nonzero_witness:
  "(3::nat) < 2 ^ 64 \<and> issued_ids gLastModelId_init 3 = [1, 2, 3] \<and>
   sorted_wrt (<) (issued_ids gLastModelId_init 3) \<and>
   ids_of (snd (RNTupleModel_ctor (2 - 1) RFieldZero)) = (2, 2)"
proof -
  have h: "(3::nat) < 2 ^ 64" by simp
  have e: "issued_ids gLastModelId_init 3 = [1, 2, 3]"
    by (simp add: eval_nat_numeral GetNewModelId_def gLastModelId_init_def)
  from GetNewModelId_increasing_nonzero [OF h] e h show ?thesis by simp
qed

subsection \<open>Validation of a projected-field mapping\<close>

lemmas example_defs = leaf_def variant_field_def collection_field_def nameCheck_ex_def ex_mapping_p_def
  ex_mapping_pc_def
lemmas pointer_defs = resolve_def deref_def parent_chain_def root_of_def GetQualifiedFieldName_def model_heap_def

lemma ex_model_vx_eq:
  "ex_model_vx =
     \<lparr>fFieldZero = RFieldBase [] [] kRecord 0 False [variant_field ''v'', leaf ''x'' ''int''],
      fDefaultEntry = Some \<lparr>e_fModelId = 1, e_fSchemaId = 1,
                             e_fValues = [CreateValue (variant_field ''v''), CreateValue (leaf ''x'' ''int'')]\<rparr>,
      fFieldNames = {''x'', ''v''}, fDescription = [],
      fProjectedFields = Some \<lparr>pf_fFieldZero = RFieldZero, pf_fFieldMap = []\<rparr>,
      fIsFrozen = False, fModelId = 1, fSchemaId = 1\<rparr>"
  by (simp add: ex_model_vx_def example_defs AddField_def Create_def CreateBare_def RNTupleModel_ctor_def
      GetNewModelId_def gLastModelId_init_def EnsureNotFrozen_def IsFrozen_def EnsureValidFieldName_def
      new_RProjectedFields_def new_REntry_def AddValue_def Attach_def RFieldZero_def)

lemma ex_model_cx_eq:
  "ex_model_cx =
     \<lparr>fFieldZero = RFieldBase [] [] kRecord 0 False [collection_field ''c'', leaf ''x'' ''int''],
      fDefaultEntry = Some \<lparr>e_fModelId = 1, e_fSchemaId = 1,
                             e_fValues = [CreateValue (collection_field ''c''), CreateValue (leaf ''x'' ''int'')]\<rparr>,
      fFieldNames = {''x'', ''c''}, fDescription = [],
      fProjectedFields = Some \<lparr>pf_fFieldZero = RFieldZero, pf_fFieldMap = []\<rparr>,
      fIsFrozen = False, fModelId = 1, fSchemaId = 1\<rparr>"
  by (simp add: ex_model_cx_def example_defs AddField_def Create_def CreateBare_def RNTupleModel_ctor_def
      GetNewModelId_def gLastModelId_init_def EnsureNotFrozen_def IsFrozen_def EnsureValidFieldName_def
      new_RProjectedFields_def new_REntry_def AddValue_def Attach_def RFieldZero_def)

lemmas outcome_defs = ends_with_def undefined_behaviour_def

text \<open>
  Claim C1 says that the first parent that is neither a record nor a leaf must be a
  collection on the side of the target as on the side of the source. The code tests the
  structure of the break point of the source twice and never that of the target. First
  input: the target \<open>p._0\<close> has the variant \<open>p\<close> as its break point, the source
  \<open>c._0\<close> the collection \<open>c\<close>, and the map sends \<open>p\<close> to \<open>c\<close>; the mapping is
  accepted. Second input, through \<^verbatim>\<open>AddProjectedField\<close>: the target \<open>p._0\<close> has
  the variant \<open>p\<close> as its break point and its source \<open>x\<close> has none; the second test
  reads the structure of a null break point instead of rejecting the mapping, and the call
  crashes.
\<close>

theorem EnsureValidMapping_target_break_point_not_checked:
  "EnsureValidMapping ex_heap_cv (Detached, [0]) ex_fieldMap_cv = Inr () \<and>
   fnBreakPoint (snd (the (resolve ex_heap_cv (Detached, [0])))) = Some ((Detached, []), variant_field ''p'') \<and>
   AddProjectedField nameCheck_ex (Some (variant_field ''p'')) ex_mapping_p ex_model_vx
     = Crashes NullDeref"
proof -
  have "EnsureValidMapping ex_heap_cv (Detached, [0]) ex_fieldMap_cv = Inr ()"
    by (simp add: EnsureValidMapping_def ex_heap_cv_def ex_fieldMap_cv_def pointer_defs example_defs
        Attach_def RFieldZero_def)
  moreover have "fnBreakPoint (snd (the (resolve ex_heap_cv (Detached, [0]))))
      = Some ((Detached, []), variant_field ''p'')"
    by (simp add: ex_heap_cv_def pointer_defs example_defs)
  moreover have "AddProjectedField nameCheck_ex (Some (variant_field ''p'')) ex_mapping_p ex_model_vx
      = Crashes NullDeref"
    unfolding ex_model_vx_eq
    by (simp add: AddProjectedField_def EnsureNotFrozen_def IsFrozen_def FindField_def example_defs
        EnsureValidFieldName_def Add_def EnsureValidMapping_def pointer_defs RFieldZero_def outcome_defs)
  ultimately show ?thesis by blast
qed

subsection \<open>Adding a projected field\<close>

lemma EnsureValidMappings_Inr:
  "EnsureValidMappings h ps fm = Inr u \<longleftrightarrow> (\<forall>p \<in> set ps. EnsureValidMapping h p fm = Inr ())"
  by (induction ps) (auto split: sum.splits)

lemma ends_with_Completes: "ends_with e s = Completes res s' \<Longrightarrow> res = Inl e \<and> s' = s"
  by (auto simp: ends_with_def split: if_splits)

lemma Add_Inl_unchanged: "Add mz f fm pf = Completes (Inl e) pf' \<Longrightarrow> pf' = pf"
  by (auto simp: Add_def Let_def split: sum.splits dest: ends_with_Completes)

lemma Add_Inr:
  assumes "Add mz f fm pf = Completes (Inr u) pf'"
  shows "(\<forall>p \<in> set ([] # descendants f).
            EnsureValidMapping \<lparr>hModelTree = mz, hProjectedTree = pf_fFieldZero pf, hDetached = Some f\<rparr>
              (Detached, p) fm = Inr ()) \<and>
         pf' = \<lparr>pf_fFieldZero = Attach (pf_fFieldZero pf) f,
                pf_fFieldMap = insert_range
                   (map (\<lambda>(k, v). (attached_ptr (length (fSubFields (pf_fFieldZero pf))) k,
                                    attached_ptr (length (fSubFields (pf_fFieldZero pf))) v)) fm)
                   (pf_fFieldMap pf)\<rparr>"
  using assms
  by (auto simp: Add_def Let_def EnsureValidMappings_Inr split: sum.splits dest: ends_with_Completes)

lemma resolved_update:
  assumes "resolved m mapping h fm p"
    and "GetQualifiedFieldName h (Detached, p') = Some qn'" "FindField m (mapping qn') = Some src'"
  shows "resolved m mapping h (AList.update (Detached, p') src' fm) p"
  using assms by (auto simp: resolved_def update_conv' split: option.splits)

lemma AddProjectedField_loop_resolved:
  assumes "AddProjectedField_loop m mapping h fieldName ps fm = Inr fm'"
  shows "(\<forall>p \<in> set ps. resolved m mapping h fm' p) \<and>
         (\<forall>p. resolved m mapping h fm p \<longrightarrow> resolved m mapping h fm' p)"
  using assms
proof (induction ps arbitrary: fm)
  case Nil
  then show ?case by simp
next
  case (Cons p ps)
  from Cons.prems obtain qn src where
    qn: "GetQualifiedFieldName h (Detached, p) = Some qn" and
    src: "FindField m (mapping qn) = Some src" and
    rest: "AddProjectedField_loop m mapping h fieldName ps (AList.update (Detached, p) src fm) = Inr fm'"
    by (auto split: option.splits)
  have here: "resolved m mapping h (AList.update (Detached, p) src fm) p"
    using qn src by (simp add: resolved_def update_conv')
  have keep: "resolved m mapping h (AList.update (Detached, p) src fm) q"
    if "resolved m mapping h fm q" for q
    using that qn src by (rule resolved_update)
  from Cons.IH [OF rest] here keep show ?case by auto
qed

lemma AddProjectedField_Inl_unchanged:
  assumes "AddProjectedField nameCheck field mapping m = Completes res m'" "res \<noteq> Inr ()"
  shows "m' = m"
  using assms
  by (auto simp: AddProjectedField_def Let_def
      split: sum.splits option.splits outcome.splits
      dest!: Add_Inl_unchanged ends_with_Completes)

lemma root_qualified_name: "GetQualifiedFieldName (model_heap m (Some f)) (Detached, []) = Some (fName f)"
  by (simp add: GetQualifiedFieldName_def model_heap_def root_of_def)

lemma AddProjectedField_Inr:
  assumes "AddProjectedField nameCheck field mapping m = Completes (Inr ()) m'"
  shows "\<exists>f pf fieldMap. field = Some f \<and> fProjectedFields m = Some pf \<and>
            (\<forall>p \<in> set ([] # descendants f).
                resolved m mapping (model_heap m (Some f)) fieldMap p \<and>
                EnsureValidMapping (model_heap m (Some f)) (Detached, p) fieldMap = Inr ()) \<and>
            m' = m\<lparr>fProjectedFields := Some
                      \<lparr>pf_fFieldZero = Attach (pf_fFieldZero pf) f,
                       pf_fFieldMap = insert_range
                          (map (\<lambda>(k, v). (attached_ptr (length (fSubFields (pf_fFieldZero pf))) k,
                                           attached_ptr (length (fSubFields (pf_fFieldZero pf))) v)) fieldMap)
                          (pf_fFieldMap pf)\<rparr>,
                   fFieldNames := insert (fName f) (fFieldNames m)\<rparr>"
proof -
  note splits = sum.splits option.splits outcome.splits
  from assms obtain f where f: "field = Some f"
    by (auto simp: AddProjectedField_def split: splits)
  from assms f obtain src where src: "FindField m (mapping (fName f)) = Some src"
    by (auto simp: AddProjectedField_def Let_def split: splits)
  let ?h = "model_heap m (Some f)"
  from assms f src obtain fieldMap where
    loop: "AddProjectedField_loop m mapping ?h (fName f) (descendants f)
             (AList.update (Detached, []) src []) = Inr fieldMap"
    by (auto simp: AddProjectedField_def Let_def split: splits dest: ends_with_Completes)
  from assms f src loop obtain pf where pf: "fProjectedFields m = Some pf"
    by (auto simp: AddProjectedField_def Let_def split: splits)
  from assms f src loop pf obtain pf' where
    add: "Add (fFieldZero m) f fieldMap pf = Completes (Inr ()) pf'" and
    m': "m' = m\<lparr>fProjectedFields := Some pf', fFieldNames := insert (fName f) (fFieldNames m)\<rparr>"
    by (auto simp: AddProjectedField_def Let_def split: splits)
  have h: "?h = \<lparr>hModelTree = fFieldZero m, hProjectedTree = pf_fFieldZero pf, hDetached = Some f\<rparr>"
    using pf by (simp add: model_heap_def)
  have "resolved m mapping ?h (AList.update (Detached, []) src []) []"
    using src by (simp add: resolved_def root_qualified_name)
  with AddProjectedField_loop_resolved [OF loop]
  have res: "\<forall>p \<in> set ([] # descendants f). resolved m mapping ?h fieldMap p"
    by auto
  from Add_Inr [OF add] h
  have val: "\<forall>p \<in> set ([] # descendants f). EnsureValidMapping ?h (Detached, p) fieldMap = Inr ()"
    and pf': "pf' = \<lparr>pf_fFieldZero = Attach (pf_fFieldZero pf) f,
                pf_fFieldMap = insert_range
                   (map (\<lambda>(k, v). (attached_ptr (length (fSubFields (pf_fFieldZero pf))) k,
                                    attached_ptr (length (fSubFields (pf_fFieldZero pf))) v)) fieldMap)
                   (pf_fFieldMap pf)\<rparr>"
    by simp_all
  from f pf res val m' pf' show ?thesis by blast
qed

text \<open>
  On every call of \<^verbatim>\<open>AddProjectedField\<close> that completes, the call is all or nothing:
  a call that does not succeed leaves the model as it was, and a call that succeeds has
  resolved every source path and validated the field and every subfield before anything
  was inserted.
\<close>

lemma AddProjectedField_completes_all_or_nothing:
  assumes "AddProjectedField nameCheck field mapping m = Completes res m'"
  shows "(res \<noteq> Inr () \<longrightarrow> m' = m) \<and>
         (res = Inr () \<longrightarrow>
            (\<exists>f pf fieldMap. field = Some f \<and> fProjectedFields m = Some pf \<and>
               (\<forall>p \<in> set ([] # descendants f).
                   resolved m mapping (model_heap m (Some f)) fieldMap p \<and>
                   EnsureValidMapping (model_heap m (Some f)) (Detached, p) fieldMap = Inr ()) \<and>
               m' = m\<lparr>fProjectedFields := Some
                         \<lparr>pf_fFieldZero = Attach (pf_fFieldZero pf) f,
                          pf_fFieldMap = insert_range
                             (map (\<lambda>(k, v). (attached_ptr (length (fSubFields (pf_fFieldZero pf))) k,
                                              attached_ptr (length (fSubFields (pf_fFieldZero pf))) v)) fieldMap)
                             (pf_fFieldMap pf)\<rparr>,
                      fFieldNames := insert (fName f) (fFieldNames m)\<rparr>))"
  using assms AddProjectedField_Inl_unchanged [of nameCheck field mapping m res m']
    AddProjectedField_Inr [of nameCheck field mapping m m']
  by blast

text \<open>
  Claim C3 says that a call of \<^verbatim>\<open>AddProjectedField\<close> with an invalid mapping fails and
  leaves the model as it was. The code does not fail on the following call; it crashes. The
  model has the collection \<open>c\<close> and the leaf \<open>x\<close>; the new field is the collection
  \<open>p\<close> with the subfield \<open>p._0\<close>; the mapping sends \<open>p\<close> to \<open>c\<close> and
  \<open>p._0\<close> to \<open>x\<close>. Both source paths resolve. The mapping of the subfield is
  invalid: the target \<open>p._0\<close> has the collection \<open>p\<close> as its break point and the
  source \<open>x\<close> has none. \<^verbatim>\<open>EnsureValidMapping\<close> on the subfield reads the structure
  of the null break point of the source (line 92) before it reaches the rejection written
  for this case (line 113), so the call neither fails nor leaves a model behind. With the
  two sides exchanged, the leaf \<open>q\<close> projected onto \<open>c._0\<close>, the same function
  rejects the mapping and the model is unchanged.
\<close>

theorem AddProjectedField_crashes_on_invalid_mapping:
  "FindField ex_model_cx (ex_mapping_pc ''p'') = Some (ModelTree, [0]) \<and>
   FindField ex_model_cx (ex_mapping_pc ''p._0'') = Some (ModelTree, [1]) \<and>
   descendants (collection_field ''p'') = [[0]] \<and>
   fnBreakPoint (snd (the (resolve (model_heap ex_model_cx (Some (collection_field ''p'')))
                             (Detached, [0]))))
     = Some ((Detached, []), collection_field ''p'') \<and>
   fnBreakPoint (snd (the (resolve (model_heap ex_model_cx (Some (collection_field ''p'')))
                             (ModelTree, [1])))) = None \<and>
   AddProjectedField nameCheck_ex (Some (collection_field ''p'')) ex_mapping_pc ex_model_cx
     = Crashes NullDeref \<and>
   AddProjectedField nameCheck_ex (Some (leaf ''q'' ''int'')) (\<lambda>name. ''c._0'') ex_model_cx
     = Completes (Inl (RFail ''field mapping structure mismatch: _0 --> q'')) ex_model_cx"
proof -
  have "FindField ex_model_cx (ex_mapping_pc ''p'') = Some (ModelTree, [0])"
    unfolding ex_model_cx_eq by (simp add: FindField_def example_defs)
  moreover have "FindField ex_model_cx (ex_mapping_pc ''p._0'') = Some (ModelTree, [1])"
    unfolding ex_model_cx_eq by (simp add: FindField_def example_defs)
  moreover have "descendants (collection_field ''p'') = [[0]]"
    by (simp add: example_defs)
  moreover have "fnBreakPoint (snd (the (resolve (model_heap ex_model_cx (Some (collection_field ''p'')))
                             (Detached, [0]))))
     = Some ((Detached, []), collection_field ''p'')"
    unfolding ex_model_cx_eq by (simp add: pointer_defs example_defs)
  moreover have "fnBreakPoint (snd (the (resolve (model_heap ex_model_cx (Some (collection_field ''p'')))
                             (ModelTree, [1])))) = None"
    unfolding ex_model_cx_eq by (simp add: pointer_defs example_defs)
  moreover have "AddProjectedField nameCheck_ex (Some (collection_field ''p'')) ex_mapping_pc ex_model_cx
     = Crashes NullDeref"
    unfolding ex_model_cx_eq
    by (simp add: Let_def AddProjectedField_def EnsureNotFrozen_def IsFrozen_def FindField_def example_defs
        EnsureValidFieldName_def Add_def EnsureValidMapping_def pointer_defs RFieldZero_def outcome_defs)
  moreover have "AddProjectedField nameCheck_ex (Some (leaf ''q'' ''int'')) (\<lambda>name. ''c._0'') ex_model_cx
     = Completes (Inl (RFail ''field mapping structure mismatch: _0 --> q'')) ex_model_cx"
    unfolding ex_model_cx_eq
    by (simp add: Let_def AddProjectedField_def EnsureNotFrozen_def IsFrozen_def FindField_def example_defs
        EnsureValidFieldName_def Add_def EnsureValidMapping_def pointer_defs RFieldZero_def outcome_defs)
  ultimately show ?thesis by blast
qed

subsection \<open>Adding a field\<close>


















subsection \<open>Accessors of an unfrozen model\<close>

text \<open>
  Claim C5, as stated, fails for two of the accessors it lists: on the unfrozen model with
  the fields \<open>v\<close> and \<open>x\<close>, \<^verbatim>\<open>GetToken\<close> returns a token for \<open>x\<close> and the
  non-const \<^verbatim>\<open>GetDefaultEntry\<close> returns the default entry.
\<close>

theorem unfrozen_accessors_counterexample:
  "\<not> IsFrozen ex_model_vx \<and>
   GetToken ex_model_vx ''x'' = Inr \<lparr>t_fIndex = 1, t_fSchemaId = 1\<rparr> \<and>
   GetDefaultEntry ex_model_vx
     = Inr \<lparr>e_fModelId = 1, e_fSchemaId = 1,
            e_fValues = [CreateValue (variant_field ''v''), CreateValue (leaf ''x'' ''int'')]\<rparr>"
  unfolding ex_model_vx_eq
  by (simp add: IsFrozen_def GetToken_def GetDefaultEntry_def EnsureNotBare_def IsBare_def example_defs)

text \<open>
  Claim C5, amended: on an unfrozen model the non-const \<^verbatim>\<open>GetFieldZero\<close>, the const
  \<^verbatim>\<open>GetDefaultEntry\<close>, \<^verbatim>\<open>CreateEntry\<close>, \<^verbatim>\<open>CreateBareEntry\<close> and
  \<^verbatim>\<open>CreateBulk\<close> throw an exception that names the unfrozen model. \<^verbatim>\<open>GetToken\<close>
  does not look at the frozen state: it returns the token of a top-level field of that name
  and throws "invalid field name" when there is none. The non-const
  \<^verbatim>\<open>GetDefaultEntry\<close> does not look at it either: it returns the default entry unless
  the model is bare.
\<close>

theorem unfrozen_accessors:
  assumes "\<not> IsFrozen m"
  shows "GetFieldZero m = Inl (RException ''invalid attempt to get mutable zero field of unfrozen model'') \<and>
         GetDefaultEntry_const m = Inl (RException ''invalid attempt to get default entry of unfrozen model'') \<and>
         CreateEntry m = Inl (RException ''invalid attempt to create entry of unfrozen model'') \<and>
         CreateBareEntry m = Inl (RException ''invalid attempt to create entry of unfrozen model'') \<and>
         CreateBulk m fieldName = Inl (RException ''invalid attempt to create bulk of unfrozen model'') \<and>
         GetToken m fieldName =
           (case find_if (\<lambda>f. fName f = fieldName) (fSubFields (fFieldZero m)) of
              None \<Rightarrow> Inl (RException (''invalid field name: '' @ fieldName))
            | Some i \<Rightarrow> Inr \<lparr>t_fIndex = i, t_fSchemaId = fSchemaId m\<rparr>) \<and>
         GetDefaultEntry m =
           (case fDefaultEntry m of
              None \<Rightarrow> Inl (RException ''invalid attempt to use default entry of bare model'')
            | Some e \<Rightarrow> Inr e)"
  using assms
  by (simp add: GetFieldZero_def GetDefaultEntry_const_def CreateEntry_def CreateBareEntry_def
      CreateBulk_def GetToken_def GetDefaultEntry_def EnsureNotBare_def IsBare_def split: option.splits)

theorem unfrozen_accessors_witness:
  "\<not> IsFrozen ex_model_vx \<and>
   GetFieldZero ex_model_vx = Inl (RException ''invalid attempt to get mutable zero field of unfrozen model'') \<and>
   CreateEntry ex_model_vx = Inl (RException ''invalid attempt to create entry of unfrozen model'') \<and>
   GetToken ex_model_vx ''y'' = Inl (RException ''invalid field name: y'')"
proof -
  have h: "\<not> IsFrozen ex_model_vx"
    by (simp add: ex_model_vx_eq IsFrozen_def)
  have "find_if (\<lambda>f. fName f = ''y'') (fSubFields (fFieldZero ex_model_vx)) = None"
    by (simp add: ex_model_vx_eq example_defs)
  with unfrozen_accessors [OF h, of "''y''"] h show ?thesis by simp
qed
subsection \<open>Model id and schema id\<close>

lemma AddField_ids:
  "AddField nameCheck field m = (res, m') \<Longrightarrow>
     fModelId m' = fModelId m \<and> fSchemaId m' = fSchemaId m \<and> fIsFrozen m' = fIsFrozen m"
  by (auto simp: AddField_def Let_def split: sum.splits option.splits)

lemma AddField_entry_ids:
  "AddField nameCheck field m = (res, m') \<Longrightarrow>
     map_option e_fModelId (fDefaultEntry m') = map_option e_fModelId (fDefaultEntry m) \<and>
     map_option e_fSchemaId (fDefaultEntry m') = map_option e_fSchemaId (fDefaultEntry m)"
  by (auto simp: AddField_def Let_def AddValue_def split: sum.splits option.splits)

lemma AddProjectedField_entry:
  "AddProjectedField nameCheck field mapping m = Completes res m' \<Longrightarrow> fDefaultEntry m' = fDefaultEntry m"
  by (auto simp: AddProjectedField_def Let_def split: sum.splits option.splits outcome.splits
      dest: ends_with_Completes)

lemma AddProjectedField_ids:
  "AddProjectedField nameCheck field mapping m = Completes res m' \<Longrightarrow>
     fModelId m' = fModelId m \<and> fSchemaId m' = fSchemaId m \<and> fIsFrozen m' = fIsFrozen m"
  by (auto simp: AddProjectedField_def Let_def split: sum.splits option.splits outcome.splits
      dest: ends_with_Completes)

lemma SetDescription_ids:
  "SetDescription d m = (res, m') \<Longrightarrow>
     fModelId m' = fModelId m \<and> fSchemaId m' = fSchemaId m \<and> fIsFrozen m' = fIsFrozen m"
  by (auto simp: SetDescription_def split: sum.splits)

lemma Freeze_ids: "fModelId (Freeze m) = fModelId m \<and> fSchemaId (Freeze m) = fSchemaId m \<and> fIsFrozen (Freeze m)"
  by (simp add: Freeze_def)

lemma Unfreeze_unfrozen: "\<not> fIsFrozen m \<Longrightarrow> Unfreeze g m = (g, m)"
  by (simp add: Unfreeze_def IsFrozen_def)

lemma Unfreeze_frozen:
  "fIsFrozen m \<Longrightarrow>
     Unfreeze g m =
       (g + 1, m\<lparr>fModelId := g + 1, fSchemaId := g + 1,
                  fDefaultEntry := map_option (\<lambda>e. e\<lparr>e_fModelId := g + 1, e_fSchemaId := g + 1\<rparr>) (fDefaultEntry m),
                  fIsFrozen := False\<rparr>)"
  by (simp add: Unfreeze_def IsFrozen_def GetNewModelId_def Let_def split: option.splits)

lemma Unfreeze_result:
  "Unfreeze g m = (g', m') \<Longrightarrow> \<not> fIsFrozen m' \<and> (fIsFrozen m \<longrightarrow> fModelId m' = fSchemaId m') \<and>
     (\<not> fIsFrozen m \<longrightarrow> m' = m)"
  by (cases "fIsFrozen m") (auto simp: Unfreeze_unfrozen Unfreeze_frozen)

lemma Create_ids: "Create g fieldZero = (g', m) \<Longrightarrow> fModelId m = fSchemaId m"
  by (auto simp: Create_def CreateBare_def RNTupleModel_ctor_def GetNewModelId_def)

lemma CreateBare_ids: "CreateBare g fieldZero = (g', m) \<Longrightarrow> fModelId m = fSchemaId m"
  by (auto simp: CreateBare_def RNTupleModel_ctor_def GetNewModelId_def)

lemma Clone_ids:
  "Clone g m = (g', Inr c) \<Longrightarrow>
     ids_of c = (g + 2, if fIsFrozen m then fSchemaId m else g + 2) \<and> fIsFrozen c = fIsFrozen m"
  by (auto simp: Clone_def RNTupleModel_ctor_def GetNewModelId_def Let_def ids_of_def
      split: option.splits sum.splits)

lemma reachable_unfrozen_ids:
  "reachable cl nameCheck g m \<Longrightarrow> (\<not> fIsFrozen m \<longrightarrow> fModelId m = fSchemaId m) \<and> (\<not> cl \<longrightarrow> fModelId m = fSchemaId m)"
proof (induction rule: reachable.induct)
  case (r_CreateBare g fieldZero g' m)
  then show ?case by (simp add: CreateBare_ids)
next
  case (r_Create g fieldZero g' m)
  then show ?case by (simp add: Create_ids)
next
  case (r_Clone g m g' c)
  from Clone_ids [OF r_Clone.hyps(3)] r_Clone.hyps(2) show ?case
    by (auto simp: ids_of_def)
next
  case (r_other_id g m i g')
  then show ?case by simp
next
  case (r_AddField g m field res m')
  with AddField_ids [OF r_AddField.hyps(2)] show ?case by simp
next
  case (r_AddProjectedField g m field mapping res m')
  with AddProjectedField_ids [OF r_AddProjectedField.hyps(2)] show ?case by simp
next
  case (r_SetDescription g m d res m')
  with SetDescription_ids [OF r_SetDescription.hyps(2)] show ?case by simp
next
  case (r_Freeze g m)
  then show ?case by (simp add: Freeze_def)
next
  case (r_Unfreeze g m g' m')
  with Unfreeze_result [OF r_Unfreeze.hyps(2)] show ?case by auto
qed



lemma Updater_AddField_keeps:
  "Updater_AddField nameCheck field u = (res, u') \<Longrightarrow>
     fModelId (w_fModel (fWriter u')) = fModelId (w_fModel (fWriter u)) \<and>
     fSchemaId (w_fModel (fWriter u')) = fSchemaId (w_fModel (fWriter u)) \<and>
     fIsFrozen (w_fModel (fWriter u')) = fIsFrozen (w_fModel (fWriter u)) \<and>
     fNewModelId u' = fNewModelId u \<and>
     map_option e_fModelId (fDefaultEntry (w_fModel (fWriter u')))
       = map_option e_fModelId (fDefaultEntry (w_fModel (fWriter u))) \<and>
     map_option e_fSchemaId (fDefaultEntry (w_fModel (fWriter u')))
       = map_option e_fSchemaId (fDefaultEntry (w_fModel (fWriter u))) \<and>
     w_fNEntries (fWriter u') = w_fNEntries (fWriter u) \<and>
     w_sink_UpdateSchema_calls (fWriter u') = w_sink_UpdateSchema_calls (fWriter u)"
  by (auto simp: Updater_AddField_def Let_def split: prod.splits sum.splits
      dest: AddField_ids AddField_entry_ids)

lemma Updater_AddProjectedField_keeps:
  "Updater_AddProjectedField nameCheck field mapping u = Completes res u' \<Longrightarrow>
     fModelId (w_fModel (fWriter u')) = fModelId (w_fModel (fWriter u)) \<and>
     fSchemaId (w_fModel (fWriter u')) = fSchemaId (w_fModel (fWriter u)) \<and>
     fIsFrozen (w_fModel (fWriter u')) = fIsFrozen (w_fModel (fWriter u)) \<and>
     fNewModelId u' = fNewModelId u \<and>
     map_option e_fModelId (fDefaultEntry (w_fModel (fWriter u')))
       = map_option e_fModelId (fDefaultEntry (w_fModel (fWriter u))) \<and>
     map_option e_fSchemaId (fDefaultEntry (w_fModel (fWriter u')))
       = map_option e_fSchemaId (fDefaultEntry (w_fModel (fWriter u))) \<and>
     w_fNEntries (fWriter u') = w_fNEntries (fWriter u) \<and>
     w_sink_UpdateSchema_calls (fWriter u') = w_sink_UpdateSchema_calls (fWriter u)"
  by (auto simp: Updater_AddProjectedField_def Let_def split: outcome.splits sum.splits
      dest: AddProjectedField_ids AddProjectedField_entry)

lemma BeginUpdate_result:
  assumes "BeginUpdate g u = (g', u')"
  shows "fModelId (w_fModel (fWriter u')) = fNewModelId u \<and>
         \<not> fIsFrozen (w_fModel (fWriter u')) \<and>
         fNewModelId u' = fModelId (snd (Unfreeze g (w_fModel (fWriter u)))) \<and>
         fSchemaId (w_fModel (fWriter u')) = fSchemaId (snd (Unfreeze g (w_fModel (fWriter u)))) \<and>
         fDefaultEntry (w_fModel (fWriter u')) = fDefaultEntry (snd (Unfreeze g (w_fModel (fWriter u)))) \<and>
         w_fNEntries (fWriter u') = w_fNEntries (fWriter u) \<and>
         w_sink_UpdateSchema_calls (fWriter u') = w_sink_UpdateSchema_calls (fWriter u) \<and>
         fOpenChangeset u' = fOpenChangeset u"
proof -
  obtain g1 m1 where un: "Unfreeze g (w_fModel (fWriter u)) = (g1, m1)"
    by (cases "Unfreeze g (w_fModel (fWriter u))")
  from Unfreeze_result [OF un] have "\<not> fIsFrozen m1" by simp
  with assms un show ?thesis
    by (auto simp: BeginUpdate_def)
qed

lemma CommitUpdate_result:
  "fModelId (w_fModel (fWriter (CommitUpdate u))) = fNewModelId u \<and>
   fSchemaId (w_fModel (fWriter (CommitUpdate u))) = fSchemaId (w_fModel (fWriter u)) \<and>
   fDefaultEntry (w_fModel (fWriter (CommitUpdate u))) = fDefaultEntry (w_fModel (fWriter u)) \<and>
   fIsFrozen (w_fModel (fWriter (CommitUpdate u))) \<and>
   fNewModelId (CommitUpdate u) = fModelId (w_fModel (fWriter u)) \<and>
   IsEmpty (fOpenChangeset (CommitUpdate u)) \<and>
   w_sink_UpdateSchema_calls (fWriter (CommitUpdate u)) =
     w_sink_UpdateSchema_calls (fWriter u) @
       (if IsEmpty (fOpenChangeset u) then [] else [(fOpenChangeset u, w_fNEntries (fWriter u))])"
  by (simp add: CommitUpdate_def Let_def Freeze_def IsEmpty_def)

lemma updating_ids:
  "updating cl nameCheck window g u \<Longrightarrow>
     (window \<longrightarrow> fModelId (w_fModel (fWriter u)) = 0 \<and> \<not> fIsFrozen (w_fModel (fWriter u)) \<and>
                 fNewModelId u = fSchemaId (w_fModel (fWriter u))) \<and>
     (\<not> window \<longrightarrow> fNewModelId u = 0 \<and>
                 (\<not> fIsFrozen (w_fModel (fWriter u)) \<longrightarrow>
                     fModelId (w_fModel (fWriter u)) = fSchemaId (w_fModel (fWriter u))) \<and>
                 (\<not> cl \<longrightarrow> fModelId (w_fModel (fWriter u)) = fSchemaId (w_fModel (fWriter u))))"
proof (induction rule: updating.induct)
  case (u_ctor g m n calls)
  from reachable_unfrozen_ids [OF u_ctor.hyps] show ?case
    by (simp add: RUpdater_ctor_def)
next
  case (u_other_id w g u i g')
  then show ?case by simp
next
  case (u_Fill w g u n)
  then show ?case by simp
next
  case (u_BeginUpdate g u g' u')
  obtain g1 m1 where un: "Unfreeze g (w_fModel (fWriter u)) = (g1, m1)"
    by (cases "Unfreeze g (w_fModel (fWriter u))")
  from Unfreeze_result [OF un] u_BeginUpdate.IH have "fModelId m1 = fSchemaId m1"
    by auto
  with BeginUpdate_result [OF u_BeginUpdate.hyps(2)] un u_BeginUpdate.IH show ?case
    by simp
next
  case (u_AddField g u field res u')
  with Updater_AddField_keeps [OF u_AddField.hyps(2)] show ?case by simp
next
  case (u_AddProjectedField g u field mapping res u')
  with Updater_AddProjectedField_keeps [OF u_AddProjectedField.hyps(2)] show ?case by simp
next
  case (u_CommitUpdate g u)
  with CommitUpdate_result [of u] show ?case by simp
qed

text \<open>
  Claim C4, as stated, fails. A clone of a frozen model keeps the schema id of its source
  and draws a new model id: the clone of the first model of a process, frozen, has model
  id 3 and schema id 1, outside any update. And the schema id changes in
  \<^verbatim>\<open>Unfreeze\<close>, with the field tree as it was (from 1 to 2 below), while the two calls
  of \<^verbatim>\<open>AddField\<close> that built the example model left it at 1.
\<close>

theorem frozen_clone_ids_differ:
  "map_sum id ids_of (snd (Clone 1 (Freeze (snd (Create gLastModelId_init RFieldZero))))) = Inr (3, 1) \<and>
   ids_of (Freeze (snd (Create gLastModelId_init RFieldZero))) = (1, 1) \<and>
   ids_of (snd (Unfreeze 1 (Freeze (snd (Create gLastModelId_init RFieldZero))))) = (2, 2) \<and>
   fFieldZero (snd (Unfreeze 1 (Freeze (snd (Create gLastModelId_init RFieldZero))))) = RFieldZero \<and>
   fSubFields (fFieldZero ex_model_vx) = [variant_field ''v'', leaf ''x'' ''int''] \<and>
   ids_of ex_model_vx = (1, 1)"
proof -
  have c: "Create gLastModelId_init RFieldZero =
      (1, \<lparr>fFieldZero = RFieldZero, fDefaultEntry = Some \<lparr>e_fModelId = 1, e_fSchemaId = 1, e_fValues = []\<rparr>,
           fFieldNames = {}, fDescription = [],
           fProjectedFields = Some \<lparr>pf_fFieldZero = RFieldZero, pf_fFieldMap = []\<rparr>,
           fIsFrozen = False, fModelId = 1, fSchemaId = 1\<rparr>)"
    by (simp add: Create_def CreateBare_def RNTupleModel_ctor_def GetNewModelId_def gLastModelId_init_def
        new_RProjectedFields_def new_REntry_def)
  have "map_sum id ids_of (snd (Clone 1 (Freeze (snd (Create gLastModelId_init RFieldZero))))) = Inr (3, 1)"
    unfolding c
    by (simp add: Clone_def Freeze_def RNTupleModel_ctor_def GetNewModelId_def Clone_projected_def
        Clone_field_def RFieldZero_def ids_of_def new_REntry_def Let_def)
  moreover have "ids_of (Freeze (snd (Create gLastModelId_init RFieldZero))) = (1, 1)"
    unfolding c by (simp add: Freeze_def ids_of_def)
  moreover have "ids_of (snd (Unfreeze 1 (Freeze (snd (Create gLastModelId_init RFieldZero))))) = (2, 2)"
    unfolding c by (simp add: Unfreeze_def Freeze_def IsFrozen_def GetNewModelId_def ids_of_def Let_def)
  moreover have "fFieldZero (snd (Unfreeze 1 (Freeze (snd (Create gLastModelId_init RFieldZero))))) = RFieldZero"
    unfolding c by (simp add: Unfreeze_def Freeze_def IsFrozen_def GetNewModelId_def Let_def)
  moreover have "fSubFields (fFieldZero ex_model_vx) = [variant_field ''v'', leaf ''x'' ''int'']"
    by (simp add: ex_model_vx_eq)
  moreover have "ids_of ex_model_vx = (1, 1)"
    by (simp add: ex_model_vx_eq ids_of_def)
  ultimately show ?thesis by blast
qed

text \<open>
  Claim C4, amended. In every state of a model reached through \<^verbatim>\<open>Create\<close>,
  \<^verbatim>\<open>CreateBare\<close>, \<^verbatim>\<open>AddField\<close>, \<^verbatim>\<open>AddProjectedField\<close>, \<^verbatim>\<open>SetDescription\<close>,
  \<^verbatim>\<open>Freeze\<close> and \<^verbatim>\<open>Unfreeze\<close> the model id and the schema id are equal; when
  \<^verbatim>\<open>Clone\<close> is used as well they are equal in every unfrozen model, and the clone of a
  frozen model has a new model id beside the schema id of its source. Between
  \<^verbatim>\<open>BeginUpdate\<close> and \<^verbatim>\<open>CommitUpdate\<close> of an updater used as its protocol says,
  the model id is zero, the model is unfrozen and the updater holds the schema id; after
  the commit the two ids are equal. The schema id is not changed by
  \<^verbatim>\<open>AddField\<close>, by a call of \<^verbatim>\<open>AddProjectedField\<close> that completes, by
  \<^verbatim>\<open>SetDescription\<close> or by \<^verbatim>\<open>Freeze\<close>; it
  is changed by \<^verbatim>\<open>Unfreeze\<close> of a frozen model, which draws one new id for the model id
  and the schema id and leaves the field tree alone, and \<^verbatim>\<open>Unfreeze\<close> of an unfrozen
  model changes nothing.
\<close>

theorem model_id_schema_id:
  "(reachable False nameCheck g m \<longrightarrow> fModelId m = fSchemaId m) \<and>
   (reachable True nameCheck g m \<longrightarrow> \<not> fIsFrozen m \<longrightarrow> fModelId m = fSchemaId m) \<and>
   (updating cl nameCheck True g u \<longrightarrow>
      fModelId (w_fModel (fWriter u)) = 0 \<and> \<not> fIsFrozen (w_fModel (fWriter u)) \<and>
      fNewModelId u = fSchemaId (w_fModel (fWriter u))) \<and>
   (updating False nameCheck False g u \<longrightarrow>
      fModelId (w_fModel (fWriter u)) = fSchemaId (w_fModel (fWriter u))) \<and>
   (updating cl nameCheck True g u \<longrightarrow>
      fModelId (w_fModel (fWriter (CommitUpdate u))) = fSchemaId (w_fModel (fWriter (CommitUpdate u)))) \<and>
   fSchemaId (snd (AddField nameCheck field m0)) = fSchemaId m0 \<and>
   (\<forall>res m1. AddProjectedField nameCheck field mapping m0 = Completes res m1
      \<longrightarrow> fSchemaId m1 = fSchemaId m0) \<and>
   fSchemaId (snd (SetDescription d m0)) = fSchemaId m0 \<and>
   fSchemaId (Freeze m0) = fSchemaId m0 \<and>
   (\<not> fIsFrozen m0 \<longrightarrow> Unfreeze g0 m0 = (g0, m0)) \<and>
   (fIsFrozen m0 \<longrightarrow> ids_of (snd (Unfreeze g0 m0)) = (g0 + 1, g0 + 1) \<and>
                      fFieldZero (snd (Unfreeze g0 m0)) = fFieldZero m0) \<and>
   (\<forall>g' c. Clone g0 m0 = (g', Inr c) \<longrightarrow>
      ids_of c = (g0 + 2, if fIsFrozen m0 then fSchemaId m0 else g0 + 2))"
proof (intro conjI impI allI)
  assume "reachable False nameCheck g m"
  from reachable_unfrozen_ids [OF this] show "fModelId m = fSchemaId m" by simp
next
  assume "reachable True nameCheck g m" "\<not> fIsFrozen m"
  with reachable_unfrozen_ids [of True nameCheck g m] show "fModelId m = fSchemaId m" by simp
next
  assume w: "updating cl nameCheck True g u"
  from updating_ids [OF w] show "fModelId (w_fModel (fWriter u)) = 0" by simp
  from updating_ids [OF w] show "\<not> fIsFrozen (w_fModel (fWriter u))" by simp
  from updating_ids [OF w] show "fNewModelId u = fSchemaId (w_fModel (fWriter u))" by simp
next
  assume "updating False nameCheck False g u"
  from updating_ids [OF this] show "fModelId (w_fModel (fWriter u)) = fSchemaId (w_fModel (fWriter u))"
    by simp
next
  assume w: "updating cl nameCheck True g u"
  from updating_ids [OF w] CommitUpdate_result [of u]
  show "fModelId (w_fModel (fWriter (CommitUpdate u))) = fSchemaId (w_fModel (fWriter (CommitUpdate u)))"
    by simp
next
  fix res m1 assume "AddProjectedField nameCheck field mapping m0 = Completes res m1"
  from AddProjectedField_ids [OF this] show "fSchemaId m1 = fSchemaId m0" by simp
next
  show "fSchemaId (snd (AddField nameCheck field m0)) = fSchemaId m0"
    using AddField_ids [of nameCheck field m0] by (metis prod.collapse)
  show "fSchemaId (snd (SetDescription d m0)) = fSchemaId m0"
    using SetDescription_ids [of d m0] by (metis prod.collapse)
  show "fSchemaId (Freeze m0) = fSchemaId m0"
    by (simp add: Freeze_ids)
next
  assume "\<not> fIsFrozen m0"
  then show "Unfreeze g0 m0 = (g0, m0)" by (rule Unfreeze_unfrozen)
next
  assume f: "fIsFrozen m0"
  show "ids_of (snd (Unfreeze g0 m0)) = (g0 + 1, g0 + 1)"
    by (simp add: Unfreeze_frozen [OF f] ids_of_def)
  show "fFieldZero (snd (Unfreeze g0 m0)) = fFieldZero m0"
    by (simp add: Unfreeze_frozen [OF f])
next
  fix g' c assume "Clone g0 m0 = (g', Inr c)"
  from Clone_ids [OF this] show "ids_of c = (g0 + 2, if fIsFrozen m0 then fSchemaId m0 else g0 + 2)"
    by simp
qed

theorem model_id_schema_id_witness:
  "reachable False nameCheck_ex 1 ex_model_vx \<and>
   fModelId ex_model_vx = fSchemaId ex_model_vx \<and>
   updating False nameCheck_ex True
     (fst (BeginUpdate 1 (RUpdater_ctor \<lparr>w_fModel = ex_model_vx, w_fNEntries = 0, w_sink_UpdateSchema_calls = []\<rparr>)))
     (snd (BeginUpdate 1 (RUpdater_ctor \<lparr>w_fModel = ex_model_vx, w_fNEntries = 0, w_sink_UpdateSchema_calls = []\<rparr>))) \<and>
   fModelId (w_fModel (fWriter
     (snd (BeginUpdate 1 (RUpdater_ctor \<lparr>w_fModel = ex_model_vx, w_fNEntries = 0, w_sink_UpdateSchema_calls = []\<rparr>))))) = 0"
proof -
  have g1: "fst (Create gLastModelId_init RFieldZero) = 1"
    by (simp add: Create_def CreateBare_def RNTupleModel_ctor_def GetNewModelId_def gLastModelId_init_def)
  have "reachable False nameCheck_ex (fst (Create gLastModelId_init RFieldZero))
          (snd (Create gLastModelId_init RFieldZero))"
    by (rule r_Create [OF surjective_pairing])
  then have r0: "reachable False nameCheck_ex 1 (snd (Create gLastModelId_init RFieldZero))"
    by (simp only: g1)
  have r1: "reachable False nameCheck_ex 1
              (snd (AddField nameCheck_ex (Some (variant_field ''v'')) (snd (Create gLastModelId_init RFieldZero))))"
    by (rule r_AddField [OF r0 surjective_pairing])
  have r2: "reachable False nameCheck_ex 1 ex_model_vx"
    unfolding ex_model_vx_def by (rule r_AddField [OF r1 surjective_pairing])
  let ?u0 = "RUpdater_ctor \<lparr>w_fModel = ex_model_vx, w_fNEntries = 0, w_sink_UpdateSchema_calls = []\<rparr>"
  have u0: "updating False nameCheck_ex False 1 ?u0"
    by (rule u_ctor [OF r2])
  have u1: "updating False nameCheck_ex True (fst (BeginUpdate 1 ?u0)) (snd (BeginUpdate 1 ?u0))"
    by (rule u_BeginUpdate [OF u0 surjective_pairing])
  from model_id_schema_id [where nameCheck = nameCheck_ex and g = 1 and m = ex_model_vx] r2
  have e: "fModelId ex_model_vx = fSchemaId ex_model_vx" by blast
  from model_id_schema_id [where nameCheck = nameCheck_ex and cl = False
      and g = "fst (BeginUpdate 1 ?u0)" and u = "snd (BeginUpdate 1 ?u0)"] u1
  have z: "fModelId (w_fModel (fWriter (snd (BeginUpdate 1 ?u0)))) = 0" by blast
  from r2 e u1 z show ?thesis by blast
qed

subsection \<open>The update window\<close>

lemma Updater_calls_keep:
  "Updater_calls nameCheck calls u = Some u' \<Longrightarrow>
   fModelId (w_fModel (fWriter u')) = fModelId (w_fModel (fWriter u)) \<and>
   fSchemaId (w_fModel (fWriter u')) = fSchemaId (w_fModel (fWriter u)) \<and>
   fIsFrozen (w_fModel (fWriter u')) = fIsFrozen (w_fModel (fWriter u)) \<and>
   fNewModelId u' = fNewModelId u \<and>
   map_option e_fModelId (fDefaultEntry (w_fModel (fWriter u')))
     = map_option e_fModelId (fDefaultEntry (w_fModel (fWriter u))) \<and>
   map_option e_fSchemaId (fDefaultEntry (w_fModel (fWriter u')))
     = map_option e_fSchemaId (fDefaultEntry (w_fModel (fWriter u))) \<and>
   w_fNEntries (fWriter u') = w_fNEntries (fWriter u) \<and>
   w_sink_UpdateSchema_calls (fWriter u') = w_sink_UpdateSchema_calls (fWriter u)"
proof (induction calls arbitrary: u)
  case Nil
  then show ?case by simp
next
  case (Cons c calls)
  show ?case
  proof (cases c)
    case (Call_AddField field)
    with Cons.prems have "Updater_calls nameCheck calls (snd (Updater_AddField nameCheck field u)) = Some u'"
      by simp
    from Cons.IH [OF this] Updater_AddField_keeps [OF surjective_pairing, of nameCheck field u]
    show ?thesis by simp
  next
    case (Call_AddProjectedField field mapping)
    with Cons.prems obtain res u1 where
      step: "Updater_AddProjectedField nameCheck field mapping u = Completes res u1" and
      rest: "Updater_calls nameCheck calls u1 = Some u'"
      by (auto split: outcome.splits)
    from Cons.IH [OF rest] Updater_AddProjectedField_keeps [OF step]
    show ?thesis by simp
  qed
qed

lemma word_succ_nonzero: "(g :: u64) \<noteq> - 1 \<Longrightarrow> g + 1 \<noteq> 0"
  by (simp add: eq_neg_iff_add_eq_0)

lemma ex_updater_eq:
  "ex_updater =
     \<lparr>fWriter = \<lparr>w_fModel = ex_model_vx\<lparr>fIsFrozen := True\<rparr>, w_fNEntries = 5,
                  w_sink_UpdateSchema_calls = []\<rparr>,
      fOpenChangeset = \<lparr>fAddedFields = [], fAddedProjectedFields = []\<rparr>,
      fNewModelId = 0\<rparr>"
  by (simp add: ex_updater_def RUpdater_ctor_def Freeze_def)

text \<open>
  Claim C9, as stated, fails on calls the updater allows. A second \<^verbatim>\<open>BeginUpdate\<close>
  without a commit in between swaps the id back: the model id is 2, not zero. A
  \<^verbatim>\<open>CommitUpdate\<close> without a \<^verbatim>\<open>BeginUpdate\<close> swaps the zero placeholder in: the
  model is frozen with the model id zero. And when the counter of ids stands at its last
  value, \<^verbatim>\<open>BeginUpdate\<close> draws the id zero and \<^verbatim>\<open>CommitUpdate\<close> restores it.
\<close>

theorem BeginUpdate_CommitUpdate_out_of_protocol:
  "fModelId (w_fModel (fWriter (snd (BeginUpdate 1 ex_updater)))) = 0 \<and>
   fModelId (w_fModel (fWriter (snd (BeginUpdate 2 (snd (BeginUpdate 1 ex_updater)))))) = 2 \<and>
   ids_of (w_fModel (fWriter (CommitUpdate ex_updater))) = (0, 1) \<and>
   IsFrozen (w_fModel (fWriter (CommitUpdate ex_updater))) \<and>
   ids_of (w_fModel (fWriter (CommitUpdate (snd (BeginUpdate (- 1) ex_updater))))) = (0, 0)"
  unfolding ex_updater_eq ex_model_vx_eq
  by (simp add: BeginUpdate_def CommitUpdate_def Unfreeze_def Freeze_def IsFrozen_def
      GetNewModelId_def Let_def IsEmpty_def ids_of_def)

text \<open>
  Claim C9, amended. Take an updater whose placeholder is zero (as constructed, and again
  after every \<^verbatim>\<open>CommitUpdate\<close> that follows a \<^verbatim>\<open>BeginUpdate\<close>) on a frozen model,
  while the counter of ids is not at its last value. After \<^verbatim>\<open>BeginUpdate\<close> the model
  id is zero and the model is unfrozen. After any calls of \<^verbatim>\<open>AddField\<close> and
  \<^verbatim>\<open>AddProjectedField\<close> that complete, \<^verbatim>\<open>CommitUpdate\<close> leaves the model frozen
  with the id drawn by \<^verbatim>\<open>BeginUpdate\<close>, which is not zero and is the schema id and the
  id of the default entry, puts the placeholder back to zero and leaves the open changeset
  empty; and the sink has received one more call of \<^verbatim>\<open>UpdateSchema\<close>, with the staged
  changeset and the number of entries of the writer, if the changeset is not empty, and no
  call if it is empty.
\<close>

theorem BeginUpdate_CommitUpdate:
  assumes idle: "fNewModelId u = 0"
    and frozen: "fIsFrozen (w_fModel (fWriter u))"
    and no_wrap: "g \<noteq> - 1"
    and opened: "BeginUpdate g u = (g', u1)"
    and staged: "Updater_calls nameCheck calls u1 = Some u2"
    and committed: "u3 = CommitUpdate u2"
  shows "fModelId (w_fModel (fWriter u1)) = 0 \<and> \<not> IsFrozen (w_fModel (fWriter u1)) \<and>
         IsFrozen (w_fModel (fWriter u3)) \<and>
         fModelId (w_fModel (fWriter u3)) \<noteq> 0 \<and>
         fModelId (w_fModel (fWriter u3)) = g + 1 \<and>
         fSchemaId (w_fModel (fWriter u3)) = g + 1 \<and>
         (\<forall>e. fDefaultEntry (w_fModel (fWriter u3)) = Some e \<longrightarrow>
              e_fModelId e = g + 1 \<and> e_fSchemaId e = g + 1) \<and>
         fNewModelId u3 = 0 \<and>
         IsEmpty (fOpenChangeset u3) \<and>
         w_sink_UpdateSchema_calls (fWriter u3) =
           w_sink_UpdateSchema_calls (fWriter u) @
             (if IsEmpty (fOpenChangeset u2) then []
              else [(fOpenChangeset u2, w_fNEntries (fWriter u))])"
proof -
  note b = BeginUpdate_result [OF opened]
  note un = Unfreeze_frozen [OF frozen, of g]
  note k = Updater_calls_keep [OF staged]
  note c = CommitUpdate_result [of u2]
  have b1: "fModelId (w_fModel (fWriter u1)) = 0" "\<not> IsFrozen (w_fModel (fWriter u1))"
    using b idle by (simp_all add: IsFrozen_def)
  have b2: "fNewModelId u1 = g + 1" "fSchemaId (w_fModel (fWriter u1)) = g + 1"
    using b un by simp_all
  have b3: "map_option e_fModelId (fDefaultEntry (w_fModel (fWriter u1)))
               = map_option (\<lambda>e. g + 1) (fDefaultEntry (w_fModel (fWriter u)))"
    "map_option e_fSchemaId (fDefaultEntry (w_fModel (fWriter u1)))
               = map_option (\<lambda>e. g + 1) (fDefaultEntry (w_fModel (fWriter u)))"
    using b un by (simp_all add: option.map_comp comp_def)
  have c3: "\<forall>e. fDefaultEntry (w_fModel (fWriter u3)) = Some e \<longrightarrow>
              e_fModelId e = g + 1 \<and> e_fSchemaId e = g + 1"
    using c k b3 committed by (cases "fDefaultEntry (w_fModel (fWriter u))") auto
  have c1: "IsFrozen (w_fModel (fWriter u3))" "fModelId (w_fModel (fWriter u3)) = g + 1"
    "fSchemaId (w_fModel (fWriter u3)) = g + 1" "fNewModelId u3 = 0" "IsEmpty (fOpenChangeset u3)"
    using c k b1 b2 committed by (simp_all add: IsFrozen_def)
  have c2: "w_sink_UpdateSchema_calls (fWriter u3) =
           w_sink_UpdateSchema_calls (fWriter u) @
             (if IsEmpty (fOpenChangeset u2) then []
              else [(fOpenChangeset u2, w_fNEntries (fWriter u))])"
    using c k b committed by simp
  from b1 c3 c1 c2 word_succ_nonzero [OF no_wrap] show ?thesis by simp
qed

lemma ex_BeginUpdate:
  "BeginUpdate 1 ex_updater = (2, snd (BeginUpdate 1 ex_updater))"
  by (simp add: BeginUpdate_def ex_updater_def RUpdater_ctor_def Unfreeze_def Freeze_def IsFrozen_def
      GetNewModelId_def Let_def split: option.splits)

theorem BeginUpdate_CommitUpdate_witness:
  "fModelId (w_fModel (fWriter (snd (BeginUpdate 1 ex_updater)))) = 0 \<and>
   \<not> IsFrozen (w_fModel (fWriter (snd (BeginUpdate 1 ex_updater)))) \<and>
   ids_of (w_fModel (fWriter (CommitUpdate (snd (Updater_AddField nameCheck_ex
        (Some (leaf ''y'' ''float'')) (snd (BeginUpdate 1 ex_updater))))))) = (2, 2) \<and>
   w_sink_UpdateSchema_calls (fWriter (CommitUpdate (snd (Updater_AddField nameCheck_ex
        (Some (leaf ''y'' ''float'')) (snd (BeginUpdate 1 ex_updater))))))
     = [(\<lparr>fAddedFields = [(ModelTree, [2])], fAddedProjectedFields = []\<rparr>, 5)] \<and>
   w_sink_UpdateSchema_calls (fWriter (CommitUpdate (snd (BeginUpdate 1 ex_updater)))) = []"
proof -
  let ?u1 = "snd (BeginUpdate 1 ex_updater)"
  let ?u2 = "snd (Updater_AddField nameCheck_ex (Some (leaf ''y'' ''float'')) ?u1)"
  have h1: "fNewModelId ex_updater = 0"
    by (simp add: ex_updater_def RUpdater_ctor_def)
  have h2: "fIsFrozen (w_fModel (fWriter ex_updater))"
    by (simp add: ex_updater_def RUpdater_ctor_def Freeze_def)
  have h3: "(1 :: u64) \<noteq> - 1" by simp
  have s0: "w_sink_UpdateSchema_calls (fWriter ex_updater) = []" "w_fNEntries (fWriter ex_updater) = 5"
    by (simp_all add: ex_updater_def RUpdater_ctor_def)
  have e: "fOpenChangeset ?u1 = \<lparr>fAddedFields = [], fAddedProjectedFields = []\<rparr>"
    by (simp add: BeginUpdate_def ex_updater_def RUpdater_ctor_def split: prod.splits)
  have a: "fOpenChangeset ?u2 = \<lparr>fAddedFields = [(ModelTree, [2])], fAddedProjectedFields = []\<rparr>"
    by (simp add: BeginUpdate_def ex_updater_def RUpdater_ctor_def Unfreeze_def Freeze_def IsFrozen_def
        GetNewModelId_def Let_def ex_model_vx_eq Updater_AddField_def AddField_def EnsureNotFrozen_def
        EnsureValidFieldName_def example_defs)
  have c1: "Updater_calls nameCheck_ex [Call_AddField (Some (leaf ''y'' ''float''))] ?u1 = Some ?u2"
    by simp
  have c2: "Updater_calls nameCheck_ex [] ?u1 = Some ?u1"
    by simp
  note t1 = BeginUpdate_CommitUpdate [OF h1 h2 h3 ex_BeginUpdate c1 refl]
  note t2 = BeginUpdate_CommitUpdate [OF h1 h2 h3 ex_BeginUpdate c2 refl]
  from t1 a s0 have p1:
    "fModelId (w_fModel (fWriter ?u1)) = 0"
    "\<not> IsFrozen (w_fModel (fWriter ?u1))"
    "ids_of (w_fModel (fWriter (CommitUpdate ?u2))) = (2, 2)"
    "w_sink_UpdateSchema_calls (fWriter (CommitUpdate ?u2))
     = [(\<lparr>fAddedFields = [(ModelTree, [2])], fAddedProjectedFields = []\<rparr>, 5)]"
    by (simp_all add: ids_of_def IsEmpty_def)
  from t2 e s0 have p2: "w_sink_UpdateSchema_calls (fWriter (CommitUpdate ?u1)) = []"
    by (simp add: IsEmpty_def)
  from p1 p2 show ?thesis by blast
qed

subsection \<open>Looking a page up in the pool\<close>

lemma GetPage_miss:
  "(\<forall>e \<in> set pool. pe_key e \<noteq> key \<or> \<not> Contains (pe_page e) idx) \<Longrightarrow>
     GetPage key idx pool = (null_page, pool)"
  by (induction pool) auto

lemma GetPage_hit:
  "(\<exists>e \<in> set pool. pe_key e = key \<and> Contains (pe_page e) idx) \<Longrightarrow>
     \<exists>i < length pool. pe_key (pool ! i) = key \<and> Contains (pe_page (pool ! i)) idx \<and>
        (\<forall>j < i. pe_key (pool ! j) \<noteq> key \<or> \<not> Contains (pe_page (pool ! j)) idx) \<and>
        GetPage key idx pool =
          (pe_page (pool ! i), pool[i := (pool ! i)\<lparr>pe_useCount := pe_useCount (pool ! i) + 1\<rparr>])"
proof (induction pool)
  case Nil
  then show ?case by simp
next
  case (Cons e es)
  show ?case
  proof (cases "pe_key e = key \<and> Contains (pe_page e) idx")
    case True
    then have "pe_key ((e # es) ! 0) = key \<and> Contains (pe_page ((e # es) ! 0)) idx \<and>
        (\<forall>j < 0. pe_key ((e # es) ! j) \<noteq> key \<or> \<not> Contains (pe_page ((e # es) ! j)) idx) \<and>
        GetPage key idx (e # es) =
          (pe_page ((e # es) ! 0), (e # es)[0 := ((e # es) ! 0)\<lparr>pe_useCount := pe_useCount ((e # es) ! 0) + 1\<rparr>])"
      by simp
    then show ?thesis by (intro exI [of _ 0]) simp
  next
    case False
    with Cons.prems have "\<exists>e \<in> set es. pe_key e = key \<and> Contains (pe_page e) idx" by auto
    from Cons.IH [OF this] obtain i where i: "i < length es"
      "pe_key (es ! i) = key" "Contains (pe_page (es ! i)) idx"
      "\<forall>j < i. pe_key (es ! j) \<noteq> key \<or> \<not> Contains (pe_page (es ! j)) idx"
      "GetPage key idx es = (pe_page (es ! i), es[i := (es ! i)\<lparr>pe_useCount := pe_useCount (es ! i) + 1\<rparr>])"
      by blast
    have before: "\<forall>j < Suc i. pe_key ((e # es) ! j) \<noteq> key \<or> \<not> Contains (pe_page ((e # es) ! j)) idx"
    proof (intro allI impI)
      fix j assume "j < Suc i"
      then show "pe_key ((e # es) ! j) \<noteq> key \<or> \<not> Contains (pe_page ((e # es) ! j)) idx"
        using False i(4) by (cases j) auto
    qed
    from False have "GetPage key idx (e # es) = (case GetPage key idx es of (p, es') \<Rightarrow> (p, e # es'))"
      by auto
    with i(5) have step: "GetPage key idx (e # es) =
        (pe_page ((e # es) ! Suc i),
         (e # es)[Suc i := ((e # es) ! Suc i)\<lparr>pe_useCount := pe_useCount ((e # es) ! Suc i) + 1\<rparr>])"
      by simp
    from i(1,2,3) have here: "Suc i < length (e # es)" "pe_key ((e # es) ! Suc i) = key"
      "Contains (pe_page ((e # es) ! Suc i)) idx"
      by simp_all
    from here before step show ?thesis by blast
  qed
qed

text \<open>
  Claim C7: \<^verbatim>\<open>GetPage\<close> always returns a reference. On an empty pool, and when no
  entry has the key and a window that contains the index (the key differs, or the index
  lies outside every window), it returns the null page and leaves the pool alone. On a hit
  it returns the page of the first entry with the key whose window contains the index, and
  the use count of that entry goes up by one.
\<close>

theorem GetPage_null_or_registered_page:
  "GetPage key idx [] = (null_page, []) \<and> IsNull null_page \<and>
   ((\<forall>e \<in> set pool. pe_key e \<noteq> key \<or> \<not> Contains (pe_page e) idx) \<longrightarrow>
       GetPage key idx pool = (null_page, pool)) \<and>
   ((\<exists>e \<in> set pool. pe_key e = key \<and> Contains (pe_page e) idx) \<longrightarrow>
       (\<exists>i < length pool. pe_key (pool ! i) = key \<and> Contains (pe_page (pool ! i)) idx \<and>
          (\<forall>j < i. pe_key (pool ! j) \<noteq> key \<or> \<not> Contains (pe_page (pool ! j)) idx) \<and>
          GetPage key idx pool =
            (pe_page (pool ! i), pool[i := (pool ! i)\<lparr>pe_useCount := pe_useCount (pool ! i) + 1\<rparr>])))"
  using GetPage_miss [of pool key idx] GetPage_hit [of pool key idx]
  by (simp add: IsNull_def null_page_def)

lemma ex_page_eq:
  "ex_page = \<lparr>p_fBuffer = Some 4096, p_fElementSize = 1, p_fMaxElements = 10, p_fNElements = 10,
              p_fRangeFirst = 50, p_fClusterInfo = \<lparr>ci_fId = 2, ci_fIndexOffset = 40\<rparr>\<rparr>"
  by (simp add: ex_page_def SetWindow_def GrowUnchecked_def NewPage_def)

lemmas page_defs = GetGlobalRangeFirst_def GetGlobalRangeLast_def GetClusterRangeFirst_def
  GetClusterRangeLast_def IsNull_def

theorem GetPage_null_or_registered_page_witness:
  "fst (GetPage ex_key (GlobalIndex 55) (snd (RegisterPage ex_page ex_key []))) = ex_page \<and>
   \<not> IsNull ex_page \<and>
   GetGlobalRangeFirst ex_page = 50 \<and> GetGlobalRangeLast ex_page = 59 \<and>
   GetClusterRangeFirst ex_page = 10 \<and> GetClusterRangeLast ex_page = 19 \<and>
   fst (GetPage ex_key (GlobalIndex 5) (snd (RegisterPage ex_page ex_key []))) = null_page \<and>
   fst (GetPage ex_key (GlobalIndex 65) (snd (RegisterPage ex_page ex_key []))) = null_page \<and>
   fst (GetPage (1, ''int'') (GlobalIndex 55) (snd (RegisterPage ex_page ex_key []))) = null_page \<and>
   fst (GetPage ex_key (GlobalIndex 0) []) = null_page"
proof -
  let ?pool = "snd (RegisterPage ex_page ex_key [])"
  have pool: "?pool = [\<lparr>pe_page = ex_page, pe_key = ex_key, pe_useCount = 1\<rparr>]"
    by (simp add: RegisterPage_def)
  have in55: "\<exists>e \<in> set ?pool. pe_key e = ex_key \<and> Contains (pe_page e) (GlobalIndex 55)"
    unfolding pool by (simp add: ex_page_eq page_defs)
  have out5: "\<forall>e \<in> set ?pool. pe_key e \<noteq> ex_key \<or> \<not> Contains (pe_page e) (GlobalIndex 5)"
    unfolding pool by (simp add: ex_page_eq page_defs)
  have out65: "\<forall>e \<in> set ?pool. pe_key e \<noteq> ex_key \<or> \<not> Contains (pe_page e) (GlobalIndex 65)"
    unfolding pool by (simp add: ex_page_eq page_defs)
  have other: "\<forall>e \<in> set ?pool. pe_key e \<noteq> (1, ''int'') \<or> \<not> Contains (pe_page e) (GlobalIndex 55)"
    unfolding pool by (simp add: ex_key_def)
  from GetPage_null_or_registered_page [of ex_key "GlobalIndex 55" ?pool] in55
  have hit: "fst (GetPage ex_key (GlobalIndex 55) ?pool) = ex_page"
    unfolding pool by auto
  from GetPage_null_or_registered_page [of ex_key "GlobalIndex 5" ?pool] out5
  have m5: "fst (GetPage ex_key (GlobalIndex 5) ?pool) = null_page" by simp
  from GetPage_null_or_registered_page [of ex_key "GlobalIndex 65" ?pool] out65
  have m65: "fst (GetPage ex_key (GlobalIndex 65) ?pool) = null_page" by simp
  from GetPage_null_or_registered_page [of "(1, ''int'')" "GlobalIndex 55" ?pool] other
  have mk: "fst (GetPage (1, ''int'') (GlobalIndex 55) ?pool) = null_page" by simp
  from GetPage_null_or_registered_page [of ex_key "GlobalIndex 0" "[]"]
  have me: "fst (GetPage ex_key (GlobalIndex 0) []) = null_page" by simp
  have r: "\<not> IsNull ex_page" "GetGlobalRangeFirst ex_page = 50" "GetGlobalRangeLast ex_page = 59"
    "GetClusterRangeFirst ex_page = 10" "GetClusterRangeLast ex_page = 19"
    by (simp_all add: ex_page_eq page_defs)
  from hit m5 m65 mk me r show ?thesis by blast
qed

subsection \<open>Eviction\<close>

lemma Evict_keeps_used:
  "filter (\<lambda>e. pe_useCount e \<noteq> 0) (Evict maxCount pool) = filter (\<lambda>e. pe_useCount e \<noteq> 0) pool"
  by (induction pool arbitrary: maxCount) auto

lemma Evict_unused:
  "filter (\<lambda>e. pe_useCount e = 0) (Evict maxCount pool)
     = drop maxCount (filter (\<lambda>e. pe_useCount e = 0) pool)"
proof (induction pool arbitrary: maxCount)
  case Nil
  then show ?case by simp
next
  case (Cons e es)
  show ?case
  proof (cases "0 < maxCount \<and> pe_useCount e = 0")
    case True
    then obtain k where "maxCount = Suc k" by (cases maxCount) auto
    with True Cons.IH [of k] show ?thesis by simp
  next
    case False
    with Cons.IH [of maxCount] show ?thesis by auto
  qed
qed

lemma Evict_subset: "set (Evict maxCount pool) \<subseteq> set pool"
  by (induction pool arbitrary: maxCount) auto

lemma Evict_length:
  "length (Evict maxCount pool) + min maxCount (length (filter (\<lambda>e. pe_useCount e = 0) pool)) = length pool"
proof (induction pool arbitrary: maxCount)
  case Nil
  then show ?case by simp
next
  case (Cons e es)
  show ?case
  proof (cases "0 < maxCount \<and> pe_useCount e = 0")
    case True
    then obtain k where "maxCount = Suc k" by (cases maxCount) auto
    with True Cons.IH [of k] show ?thesis by simp
  next
    case False
    with Cons.IH [of maxCount] show ?thesis by auto
  qed
qed

lemma Evict_append:
  "Evict maxCount (xs @ ys)
     = Evict maxCount xs @ Evict (maxCount - length (filter (\<lambda>e. pe_useCount e = 0) xs)) ys"
proof (induction xs arbitrary: maxCount)
  case Nil
  then show ?case by simp
next
  case (Cons e es)
  show ?case
  proof (cases "0 < maxCount \<and> pe_useCount e = 0")
    case True
    then obtain k where "maxCount = Suc k" by (cases maxCount) auto
    with True Cons.IH [of k] show ?thesis by simp
  next
    case False
    with Cons.IH [of maxCount] show ?thesis by auto
  qed
qed

lemma ReleasePage_at:
  assumes "i < length pool" "\<not> IsNull (pe_page (pool ! i))"
    "\<forall>j < i. pe_page (pool ! j) \<noteq> pe_page (pool ! i)"
  shows "ReleasePage (pe_page (pool ! i)) pool
           = pool[i := (pool ! i)\<lparr>pe_useCount := pe_useCount (pool ! i) - 1\<rparr>]"
  using assms
proof (induction pool arbitrary: i)
  case Nil
  then show ?case by simp
next
  case (Cons e es)
  show ?case
  proof (cases i)
    case 0
    with Cons.prems show ?thesis by simp
  next
    case (Suc k)
    with Cons.prems have k: "k < length es" "\<not> IsNull (pe_page (es ! k))"
      "\<forall>j < k. pe_page (es ! j) \<noteq> pe_page (es ! k)" "pe_page e \<noteq> pe_page (es ! k)"
      by auto
    from Cons.IH [OF k(1,2,3)] k Suc show ?thesis by simp
  qed
qed

lemma Evict_removes_released:
  assumes i: "i < length pool" and d: "distinct (map pe_page pool)"
    and z: "pe_useCount (pool ! i) = 0"
    and n: "length (filter (\<lambda>e. pe_useCount e = 0) (take (Suc i) pool)) \<le> maxCount"
  shows "pe_page (pool ! i) \<notin> pe_page ` set (Evict maxCount pool)"
proof -
  let ?xs = "take i pool" and ?ys = "drop (Suc i) pool"
  let ?z = "length (filter (\<lambda>e. pe_useCount e = 0) ?xs)"
  have split: "pool = ?xs @ pool ! i # ?ys"
    using i by (simp add: id_take_nth_drop)
  have "take (Suc i) pool = ?xs @ [pool ! i]"
    using i by (simp add: take_Suc_conv_app_nth)
  with n z have "Suc ?z \<le> maxCount" by simp
  then have pos: "0 < maxCount - ?z" by simp
  have "Evict maxCount pool = Evict maxCount (?xs @ pool ! i # ?ys)"
    using split by simp
  also have "\<dots> = Evict maxCount ?xs @ Evict (maxCount - ?z) (pool ! i # ?ys)"
    by (rule Evict_append)
  also have "\<dots> = Evict maxCount ?xs @ Evict (maxCount - ?z - 1) ?ys"
    using pos z by simp
  finally have "set (Evict maxCount pool) \<subseteq> set ?xs \<union> set ?ys"
    using Evict_subset [of maxCount ?xs] Evict_subset [of "maxCount - ?z - 1" ?ys] by auto
  moreover have "distinct (map pe_page (?xs @ pool ! i # ?ys))"
    using d split by simp
  then have "pe_page (pool ! i) \<notin> pe_page ` (set ?xs \<union> set ?ys)"
    by auto
  ultimately show ?thesis by blast
qed

text \<open>
  Claim C6: \<^verbatim>\<open>Evict(maxCount)\<close> keeps every entry with a use count other than zero,
  whatever its age and whatever \<open>maxCount\<close>; of the entries with use count zero it
  removes the oldest \<open>maxCount\<close>, all of them if there are fewer. When the one
  reference to an entry is released, its use count is zero, and an \<^verbatim>\<open>Evict\<close> whose
  \<open>maxCount\<close> reaches the entry (it covers the unused entries up to this one) removes
  its page from the pool.
\<close>

theorem Evict_only_unused_pages:
  "filter (\<lambda>e. pe_useCount e \<noteq> 0) (Evict maxCount pool) = filter (\<lambda>e. pe_useCount e \<noteq> 0) pool \<and>
   (\<forall>e \<in> set pool. pe_useCount e \<noteq> 0 \<longrightarrow> e \<in> set (Evict maxCount pool)) \<and>
   filter (\<lambda>e. pe_useCount e = 0) (Evict maxCount pool)
     = drop maxCount (filter (\<lambda>e. pe_useCount e = 0) pool) \<and>
   length (Evict maxCount pool) + min maxCount (length (filter (\<lambda>e. pe_useCount e = 0) pool))
     = length pool \<and>
   (\<forall>i. i < length pool \<and> distinct (map pe_page pool) \<and> \<not> IsNull (pe_page (pool ! i)) \<and>
        pe_useCount (pool ! i) = 1 \<and>
        length (filter (\<lambda>e. pe_useCount e = 0)
                  (take (Suc i) (ReleasePage (pe_page (pool ! i)) pool))) \<le> maxCount
      \<longrightarrow> ReleasePage (pe_page (pool ! i)) pool = pool[i := (pool ! i)\<lparr>pe_useCount := 0\<rparr>] \<and>
          pe_page (pool ! i) \<notin> pe_page ` set (Evict maxCount (ReleasePage (pe_page (pool ! i)) pool)))"
proof (intro conjI ballI allI impI)
  show "filter (\<lambda>e. pe_useCount e \<noteq> 0) (Evict maxCount pool) = filter (\<lambda>e. pe_useCount e \<noteq> 0) pool"
    by (rule Evict_keeps_used)
next
  fix e assume "e \<in> set pool" "pe_useCount e \<noteq> 0"
  then have "e \<in> set (filter (\<lambda>e. pe_useCount e \<noteq> 0) pool)" by simp
  then have "e \<in> set (filter (\<lambda>e. pe_useCount e \<noteq> 0) (Evict maxCount pool))"
    by (simp only: Evict_keeps_used)
  then show "e \<in> set (Evict maxCount pool)" by simp
next
  show "filter (\<lambda>e. pe_useCount e = 0) (Evict maxCount pool)
     = drop maxCount (filter (\<lambda>e. pe_useCount e = 0) pool)"
    by (rule Evict_unused)
next
  show "length (Evict maxCount pool) + min maxCount (length (filter (\<lambda>e. pe_useCount e = 0) pool))
     = length pool"
    by (rule Evict_length)
next
  fix i
  assume a: "i < length pool \<and> distinct (map pe_page pool) \<and> \<not> IsNull (pe_page (pool ! i)) \<and>
        pe_useCount (pool ! i) = 1 \<and>
        length (filter (\<lambda>e. pe_useCount e = 0)
                  (take (Suc i) (ReleasePage (pe_page (pool ! i)) pool))) \<le> maxCount"
  then have first: "\<forall>j < i. pe_page (pool ! j) \<noteq> pe_page (pool ! i)"
    by (auto simp: distinct_conv_nth)
  from a first have rel: "ReleasePage (pe_page (pool ! i)) pool = pool[i := (pool ! i)\<lparr>pe_useCount := 0\<rparr>]"
    by (simp add: ReleasePage_at)
  show "ReleasePage (pe_page (pool ! i)) pool = pool[i := (pool ! i)\<lparr>pe_useCount := 0\<rparr>]"
    by (rule rel)
  let ?pool' = "pool[i := (pool ! i)\<lparr>pe_useCount := 0\<rparr>]"
  have "pe_page (?pool' ! i) \<notin> pe_page ` set (Evict maxCount ?pool')"
  proof (rule Evict_removes_released)
    show "i < length ?pool'" using a by simp
    have "map pe_page ?pool' = map pe_page pool"
      using a by (simp add: map_update list_update_same_conv)
    then show "distinct (map pe_page ?pool')" using a by simp
    show "pe_useCount (?pool' ! i) = 0" using a by simp
    show "length (filter (\<lambda>e. pe_useCount e = 0) (take (Suc i) ?pool')) \<le> maxCount"
      using a rel by simp
  qed
  with a rel show "pe_page (pool ! i) \<notin> pe_page ` set (Evict maxCount (ReleasePage (pe_page (pool ! i)) pool))"
    by simp
qed

lemma ex_pool_in_use_eq:
  "ex_pool_in_use = [\<lparr>pe_page = ex_page, pe_key = ex_key, pe_useCount = 1\<rparr>]"
  by (simp add: ex_pool_in_use_def PreloadPage_def ex_page_eq page_defs)

theorem Evict_only_unused_pages_witness:
  "Evict 2 ex_pool_in_use = ex_pool_in_use \<and>
   ReleasePage ex_page ex_pool_in_use = [\<lparr>pe_page = ex_page, pe_key = ex_key, pe_useCount = 0\<rparr>] \<and>
   ex_page \<notin> pe_page ` set (Evict 2 (ReleasePage ex_page ex_pool_in_use)) \<and>
   Evict 2 (ReleasePage ex_page ex_pool_in_use) = [] \<and>
   Evict 2 [] = []"
proof -
  note t = Evict_only_unused_pages [of 2 ex_pool_in_use]
  have n: "\<not> IsNull ex_page" by (simp add: ex_page_eq IsNull_def)
  have r: "ReleasePage ex_page ex_pool_in_use = [\<lparr>pe_page = ex_page, pe_key = ex_key, pe_useCount = 0\<rparr>]"
    using n by (simp add: ex_pool_in_use_eq)
  have h: "0 < length ex_pool_in_use \<and> distinct (map pe_page ex_pool_in_use) \<and>
        \<not> IsNull (pe_page (ex_pool_in_use ! 0)) \<and> pe_useCount (ex_pool_in_use ! 0) = 1 \<and>
        length (filter (\<lambda>e. pe_useCount e = 0)
                  (take (Suc 0) (ReleasePage (pe_page (ex_pool_in_use ! 0)) ex_pool_in_use))) \<le> 2"
    using n by (simp add: ex_pool_in_use_eq)
  from t h have gone: "pe_page (ex_pool_in_use ! 0)
      \<notin> pe_page ` set (Evict 2 (ReleasePage (pe_page (ex_pool_in_use ! 0)) ex_pool_in_use))"
    by blast
  have p0: "pe_page (ex_pool_in_use ! 0) = ex_page" by (simp add: ex_pool_in_use_eq)
  have k: "Evict 2 ex_pool_in_use = ex_pool_in_use"
    by (simp add: ex_pool_in_use_eq)
  have e: "Evict 2 (ReleasePage ex_page ex_pool_in_use) = []"
    unfolding r by simp
  from gone p0 k r e show ?thesis by simp
qed

subsection \<open>Opening a dataset with an unknown feature flag\<close>

lemma join_flags_Cons: "fs \<noteq> [] \<Longrightarrow> join_flags (f # fs) = to_string f @ '', '' @ join_flags fs"
  by (cases fs) simp_all

lemma join_flags_contains:
  "f \<in> set fs \<Longrightarrow> \<exists>pre post. join_flags fs = pre @ to_string f @ post"
proof (induction fs)
  case Nil
  then show ?case by simp
next
  case (Cons a fs)
  show ?case
  proof (cases "fs = []")
    case True
    with Cons.prems have "join_flags (a # fs) = [] @ to_string f @ []" by simp
    then show ?thesis by blast
  next
    case False
    show ?thesis
    proof (cases "f = a")
      case True
      with False have "join_flags (a # fs) = [] @ to_string f @ ('', '' @ join_flags fs)"
        by (simp add: join_flags_Cons)
      then show ?thesis by blast
    next
      case False
      with Cons obtain pre post where "join_flags fs = pre @ to_string f @ post" by auto
      with \<open>fs \<noteq> []\<close> have "join_flags (a # fs) = (to_string a @ '', '' @ pre) @ to_string f @ post"
        by (simp add: join_flags_Cons)
      then show ?thesis by blast
    qed
  qed
qed

lemma names_flag_infix: "msg = pre @ to_string f @ post \<Longrightarrow> names_flag msg f"
  unfolding names_flag_def list_ex_iff by (rule bexI [of _ "length pre"]) simp_all

text \<open>
  Claim C2: when the header of a stored dataset declares a feature flag outside the set
  the reader understands, \<^verbatim>\<open>Attach\<close> throws; the source is as it was, so a source
  just created makes no field and no page accessible; and the message names every
  unrecognised flag value.
\<close>

theorem Attach_rejects_unknown_feature_flag:
  assumes "\<exists>f \<in> set (sd_featureFlags (ps_stored src)). f \<notin> set understood"
  shows "\<exists>msg. Attach_source understood src = (Inl (RException (''unsupported format feature: '' @ msg)), src) \<and>
           (\<forall>f \<in> set (sd_featureFlags (ps_stored src)). f \<notin> set understood
               \<longrightarrow> names_flag (''unsupported format feature: '' @ msg) f) \<and>
           (\<forall>d. src = RPageSource_Create d \<longrightarrow>
               ps_accessibleFields (snd (Attach_source understood src)) = [] \<and>
               ps_accessiblePages (snd (Attach_source understood src)) = [])"
proof -
  let ?unknown = "filter (\<lambda>f. f \<notin> set understood) (sd_featureFlags (ps_stored src))"
  from assms have ne: "?unknown \<noteq> []" by (auto simp: filter_empty_conv)
  then have att: "Attach_source understood src
      = (Inl (RException (''unsupported format feature: '' @ join_flags ?unknown)), src)"
    by (cases ?unknown) (simp_all add: Attach_source_def)
  have named: "names_flag (''unsupported format feature: '' @ join_flags ?unknown) f"
    if "f \<in> set (sd_featureFlags (ps_stored src))" "f \<notin> set understood" for f
  proof -
    from that have "f \<in> set ?unknown" by simp
    from join_flags_contains [OF this] obtain pre post where
      "join_flags ?unknown = pre @ to_string f @ post" by blast
    then have "''unsupported format feature: '' @ join_flags ?unknown
        = (''unsupported format feature: '' @ pre) @ to_string f @ post"
      by simp
    then show ?thesis by (rule names_flag_infix)
  qed
  have closed: "ps_accessibleFields (snd (Attach_source understood src)) = [] \<and>
               ps_accessiblePages (snd (Attach_source understood src)) = []"
    if "src = RPageSource_Create d" for d
    using that att by (simp add: RPageSource_Create_def)
  from att named closed show ?thesis by blast
qed

lemma to_string_fuel_step:
  "0 < k \<Longrightarrow> to_string_fuel k n =
     (if n < 10 then [''0123456789'' ! n]
      else to_string_fuel (k - 1) (n div 10) @ [''0123456789'' ! (n mod 10)])"
  by (cases k) simp_all

lemma to_string_137: "to_string 137 = ''137''"
  by (simp add: to_string_def to_string_fuel_step)

theorem Attach_rejects_unknown_feature_flag_witness:
  "Attach_source [] (RPageSource_Create ex_dataset)
     = (Inl (RException ''unsupported format feature: 137''), RPageSource_Create ex_dataset) \<and>
   names_flag ''unsupported format feature: 137'' 137 \<and>
   ps_accessibleFields (snd (Attach_source [] (RPageSource_Create ex_dataset))) = [] \<and>
   ps_accessiblePages (snd (Attach_source [] (RPageSource_Create ex_dataset))) = []"
proof -
  have h: "\<exists>f \<in> set (sd_featureFlags (ps_stored (RPageSource_Create ex_dataset))). f \<notin> set []"
    by (simp add: RPageSource_Create_def ex_dataset_def)
  have a: "Attach_source [] (RPageSource_Create ex_dataset)
     = (Inl (RException ''unsupported format feature: 137''), RPageSource_Create ex_dataset)"
    by (simp add: Attach_source_def RPageSource_Create_def ex_dataset_def to_string_137)
  have m: "137 \<in> set (sd_featureFlags (ps_stored (RPageSource_Create ex_dataset)))"
    by (simp add: RPageSource_Create_def ex_dataset_def)
  from Attach_rejects_unknown_feature_flag [OF h] a m show ?thesis
    by auto
qed
end
